theory Spec2Isabelle
  imports Main "HOL-Library.AList"
begin

section \<open>Data model of \<open>src/lib/WireGuard.js\<close>\<close>

text \<open>
  A property of a JavaScript object is absent (reading it gives \<open>undefined\<close>), \<open>null\<close>,
  or holds a value.
\<close>

datatype 'a field = Undefined | Null | Val 'a

text \<open>
  A timestamp property holds either a \<open>Date\<close> object (as \<open>new Date()\<close> leaves it in
  memory; \<open>None\<close> is the Invalid Date, whose time value is NaN) or the ISO-8601 string
  that \<open>JSON.stringify\<close> writes for a valid \<open>Date\<close> and \<open>JSON.parse\<close> reads back as a
  plain string. \<open>IsoStr t\<close> stands for the string \<open>new Date(t).toISOString()\<close>; times are
  milliseconds since the epoch.
\<close>

datatype stamp = DateObj "int option" | IsoStr int

record client =
  id_c :: string
  name :: string
  address :: string
  privateKey :: "string field"
  publicKey :: string
  preSharedKey :: "string field"
  createdAt :: "stamp field"
  updatedAt :: "stamp field"
  expiredAt :: "stamp field"
  enabled :: bool
  allowedIPs :: "string field"
  oneTimeLink :: "string field"
  oneTimeLinkExpiresAt :: "stamp field"

text \<open>
  The configuration object \<open>{ server: {...}, clients: {...} }\<close>. Both members are
  JavaScript objects with string keys: association lists in property (insertion) order,
  which is the order \<open>Object.entries\<close> walks and \<open>JSON.stringify\<close> writes.
\<close>

record config =
  server :: "(string \<times> string) list"
  clients :: "(string \<times> client) list"

text \<open>
  What a call can throw: an \<open>Error\<close> or \<open>ServerError\<close> (message and status code) that
  this file constructs, the runtime's ReferenceError and SyntaxError, and the rejections
  of the external capabilities (\<open>Util.exec\<close> with its message, \<open>fs.writeFile\<close> with the
  file's name).
\<close>

datatype error =
    Error string
  | ServerError string nat
  | ReferenceError string
  | SyntaxError
  | ExecError string
  | FsError string

text \<open>
  Text in JSON syntax. A text that parses is represented by the configuration it denotes;
  \<open>Malformed\<close> is any text \<open>JSON.parse\<close> rejects.
\<close>

datatype json_text = Stringified config | Malformed string

text \<open>
  The environment: the constants of \<open>../config\<close>, the subnet that
  \<open>ip.cidrSubnet(WG_DEFAULT_ADDRESS)\<close> computes (its first and last address as
  \<open>ip.toLong\<close> encodes them), and the answers of the external capabilities: the clock,
  \<open>Util.exec\<close> (the \<open>n\<close>-th command run yields an error message or its output),
  \<open>fs.writeFile\<close> (whether the \<open>n\<close>-th write succeeds), \<open>crypto.randomUUID\<close>, and the
  \<open>Date\<close> arithmetic that parses an expiry date and moves it to 23:59:59 local time.
\<close>

record env =
  WG_HOST :: string
  WG_PORT :: string
  WG_PRE_UP :: string
  WG_POST_UP :: string
  WG_PRE_DOWN :: string
  WG_POST_DOWN :: string
  WG_ENABLE_EXPIRES_TIME :: string
  WG_ENABLE_ONE_TIME_LINKS :: string
  cidrFirst :: int
  cidrLast :: int
  clock :: "nat \<Rightarrow> int"
  execResult :: "nat \<Rightarrow> string \<Rightarrow> string + string"
  writeOk :: "nat \<Rightarrow> bool"
  randomUUID :: "nat \<Rightarrow> string"
  endOfDay :: "string \<Rightarrow> int option"

text \<open>
  The mutable state: the cached promise \<open>this.__configPromise\<close> (unset, rejected or
  resolved), the two files under \<open>WG_PATH\<close>, and how far each external capability has
  been consumed.
\<close>

record world =
  configPromise :: "(error + config) option"
  wg0_json :: "json_text option"
  wg0_conf :: "string option"
  ticks :: nat
  execLog :: "string list"
  writeLog :: "string list"
  uuids :: nat

type_synonym 'a io = "world \<Rightarrow> (error + 'a) \<times> world"

section \<open>Effects\<close>

definition return :: "'a \<Rightarrow> 'a io" where
  "return a = (\<lambda>w. (Inr a, w))"

definition throw :: "error \<Rightarrow> 'a io" where
  "throw err = (\<lambda>w. (Inl err, w))"

definition io_bind :: "'a io \<Rightarrow> ('a \<Rightarrow> 'b io) \<Rightarrow> 'b io" where
  "io_bind m f = (\<lambda>w. case m w of (Inl err, w') \<Rightarrow> (Inl err, w') | (Inr a, w') \<Rightarrow> f a w')"

text \<open>\<open>promise.catch(() => {})\<close>: a failure is swallowed.\<close>

definition catch_ignore :: "'a io \<Rightarrow> unit io" where
  "catch_ignore m = (\<lambda>w. (Inr (), snd (m w)))"

text \<open>\<open>new Date()\<close> and \<open>Date.now()\<close> read the clock.\<close>

definition newDate :: "env \<Rightarrow> int io" where
  "newDate e = (\<lambda>w. (Inr (clock e (ticks w)), w\<lparr>ticks := Suc (ticks w)\<rparr>))"

definition exec :: "env \<Rightarrow> string \<Rightarrow> string io" where
  "exec e cmd = (\<lambda>w.
     (case execResult e (length (execLog w)) cmd of
        Inl msg \<Rightarrow> Inl (ExecError msg)
      | Inr out \<Rightarrow> Inr out,
      w\<lparr>execLog := execLog w @ [cmd]\<rparr>))"

definition writeFile_json :: "env \<Rightarrow> json_text \<Rightarrow> unit io" where
  "writeFile_json e txt = (\<lambda>w.
     if writeOk e (length (writeLog w))
     then (Inr (), w\<lparr>wg0_json := Some txt, writeLog := writeLog w @ [''wg0.json'']\<rparr>)
     else (Inl (FsError ''wg0.json''), w\<lparr>writeLog := writeLog w @ [''wg0.json'']\<rparr>))"

definition writeFile_conf :: "env \<Rightarrow> string \<Rightarrow> unit io" where
  "writeFile_conf e txt = (\<lambda>w.
     if writeOk e (length (writeLog w))
     then (Inr (), w\<lparr>wg0_conf := Some txt, writeLog := writeLog w @ [''wg0.conf'']\<rparr>)
     else (Inl (FsError ''wg0.conf''), w\<lparr>writeLog := writeLog w @ [''wg0.conf'']\<rparr>))"

definition crypto_randomUUID :: "env \<Rightarrow> string io" where
  "crypto_randomUUID e = (\<lambda>w. (Inr (randomUUID e (uuids w)), w\<lparr>uuids := Suc (uuids w)\<rparr>))"

section \<open>JSON\<close>

text \<open>
  What \<open>JSON.stringify\<close> keeps of a timestamp property: a valid \<open>Date\<close> becomes its ISO
  string, an Invalid Date becomes \<open>null\<close> (\<open>Date.prototype.toJSON\<close>), everything else is
  written as it is (an absent property stays absent).
\<close>

fun toJSON_stamp :: "stamp field \<Rightarrow> stamp field" where
  "toJSON_stamp (Val (DateObj (Some t))) = Val (IsoStr t)"
| "toJSON_stamp (Val (DateObj None)) = Null"
| "toJSON_stamp v = v"

definition toJSON_client :: "client \<Rightarrow> client" where
  "toJSON_client c = c\<lparr>
     createdAt := toJSON_stamp (createdAt c),
     updatedAt := toJSON_stamp (updatedAt c),
     expiredAt := toJSON_stamp (expiredAt c),
     oneTimeLinkExpiresAt := toJSON_stamp (oneTimeLinkExpiresAt c)\<rparr>"

definition toJSON_config :: "config \<Rightarrow> config" where
  "toJSON_config cfg = cfg\<lparr>clients := map (\<lambda>(k, c). (k, toJSON_client c)) (clients cfg)\<rparr>"

definition JSON_stringify :: "config \<Rightarrow> json_text" where
  "JSON_stringify cfg = Stringified (toJSON_config cfg)"

fun JSON_parse :: "json_text \<Rightarrow> error + config" where
  "JSON_parse (Stringified cfg) = Inr (toJSON_config cfg)"
| "JSON_parse (Malformed s) = Inl SyntaxError"

section \<open>Addresses\<close>

function decimal :: "nat \<Rightarrow> string" where
  "decimal n = (if n < 10 then [char_of (48 + n)]
                else decimal (n div 10) @ [char_of (48 + n mod 10)])"
  by pat_completeness auto
termination
  by (relation "measure (\<lambda>n. n)") auto

declare decimal.simps [simp del]

text \<open>\<open>ip.fromLong\<close>: the dotted quad of a 32-bit address.\<close>

definition fromLong :: "int \<Rightarrow> string" where
  "fromLong ipl =
     decimal (nat ((ipl mod 2 ^ 32) div 2 ^ 24)) @ ''.'' @
     decimal (nat ((ipl div 2 ^ 16) mod 256)) @ ''.'' @
     decimal (nat ((ipl div 2 ^ 8) mod 256)) @ ''.'' @
     decimal (nat (ipl mod 256))"

section \<open>Loading and saving\<close>

definition readFile_json :: "world \<Rightarrow> error + config" where
  "readFile_json w =
     (case wg0_json w of
        None \<Rightarrow> Inl (FsError ''wg0.json'')
      | Some txt \<Rightarrow> JSON_parse txt)"

text \<open>
  \<open>__buildConfig\<close> (the prefix \<open>priv_\<close> stands for the source's \<open>__\<close>). The promise is
  stored in \<open>this.__configPromise\<close> whether it resolves or rejects.
\<close>

definition priv_buildConfig :: "env \<Rightarrow> config io" where
  "priv_buildConfig e = (\<lambda>w.
     let (r, w') =
       (if WG_HOST e = [] then throw (Error ''WG_HOST Environment Variable Not Set!'') w
        else case readFile_json w of
          Inr config \<Rightarrow> return config w
        | Inl err \<Rightarrow>
            io_bind (exec e ''wg genkey'') (\<lambda>privateKey.
            io_bind (exec e (''echo '' @ privateKey @ '' | wg pubkey'')) (\<lambda>publicKey.
            let firstAddress = fromLong (cidrFirst e) in
            return \<lparr>server = [(''privateKey'', privateKey),
                              (''publicKey'', publicKey),
                              (''firstAddress'', firstAddress)],
                    clients = []\<rparr>)) w)
     in (r, w'\<lparr>configPromise := Some r\<rparr>))"

text \<open>A template literal prints a missing property as \<open>undefined\<close>.\<close>

definition template :: "string option \<Rightarrow> string" where
  "template v = (case v of None \<Rightarrow> ''undefined'' | Some s \<Rightarrow> s)"

text \<open>Truthiness of a property that holds a string, and its text in a template.\<close>

definition truthy :: "string field \<Rightarrow> bool" where
  "truthy v = (case v of Val s \<Rightarrow> s \<noteq> [] | _ \<Rightarrow> False)"

definition field_text :: "string field \<Rightarrow> string" where
  "field_text v = (case v of Val s \<Rightarrow> s | Null \<Rightarrow> ''null'' | Undefined \<Rightarrow> ''undefined'')"

abbreviation nl :: char where
  "nl \<equiv> CHR 0x0A"

definition interfaceBlock :: "env \<Rightarrow> config \<Rightarrow> string" where
  "interfaceBlock e config =
     [nl] @ ''# Note: Do not edit this file directly.'' @
     [nl] @ ''# Your changes will be overwritten!'' @
     [nl] @
     [nl] @ ''# Server'' @
     [nl] @ ''[Interface]'' @
     [nl] @ ''PrivateKey = '' @ template (map_of (server config) ''privateKey'') @
     [nl] @ ''Address = '' @ template (map_of (server config) ''address'') @
     [nl] @ ''ListenPort = '' @ WG_PORT e @
     [nl] @ ''PreUp = '' @ WG_PRE_UP e @
     [nl] @ ''PostUp = '' @ WG_POST_UP e @
     [nl] @ ''PreDown = '' @ WG_PRE_DOWN e @
     [nl] @ ''PostDown = '' @ WG_POST_DOWN e @
     [nl]"

definition peerBlock :: "string \<Rightarrow> client \<Rightarrow> string" where
  "peerBlock clientId client =
     [nl] @
     [nl] @
     ''# Client: '' @ name client @ '' ('' @ clientId @ '')'' @
     [nl] @ ''[Peer]'' @
     [nl] @ ''PublicKey = '' @ publicKey client @
     [nl] @ (if truthy (preSharedKey client)
             then ''PresharedKey = '' @ field_text (preSharedKey client) @ [nl]
             else []) @
     ''AllowedIPs = '' @ address client @ ''/32''"

text \<open>The text \<open>__saveConfig\<close> accumulates in \<open>result\<close>.\<close>

definition renderConfig :: "env \<Rightarrow> config \<Rightarrow> string" where
  "renderConfig e config =
     foldl (\<lambda>result (clientId, client).
              if \<not> enabled client then result
              else result @ peerBlock clientId client)
       (interfaceBlock e config) (clients config)"

definition priv_saveConfig :: "env \<Rightarrow> config \<Rightarrow> unit io" where
  "priv_saveConfig e config =
     (let result = renderConfig e config in
      io_bind (writeFile_json e (JSON_stringify config)) (\<lambda>_.
      writeFile_conf e result))"

definition priv_syncConfig :: "env \<Rightarrow> unit io" where
  "priv_syncConfig e =
     io_bind (exec e ''wg syncconf wg0 <(wg-quick strip wg0)'') (\<lambda>_. return ())"

fun str_includes :: "string \<Rightarrow> string \<Rightarrow> bool" where
  "str_includes [] sub = (sub = [])"
| "str_includes (x # xs) sub = (take (length sub) (x # xs) = sub \<or> str_includes xs sub)"

definition wg_quick_up :: "env \<Rightarrow> unit io" where
  "wg_quick_up e = (\<lambda>w.
     case exec e ''wg-quick up wg0'' w of
       (Inr _, w') \<Rightarrow> (Inr (), w')
     | (Inl (ExecError msg), w') \<Rightarrow>
         (if str_includes msg (''Cannot find device '' @ [CHR 0x22] @ ''wg0'' @ [CHR 0x22])
          then (Inl (Error (''WireGuard exited with the error: Cannot find device '' @
                  [CHR 0x22] @ ''wg0'' @ [CHR 0x22] @ [nl] @
                  ''This usually means that your host'' @ [CHR 0x27] @
                  ''s kernel does not support WireGuard!'')), w')
          else (Inl (ExecError msg), w'))
     | (Inl err, w') \<Rightarrow> (Inl err, w'))"

definition getConfig :: "env \<Rightarrow> config io" where
  "getConfig e = (\<lambda>w.
     case configPromise w of
       Some r \<Rightarrow> (r, w)
     | None \<Rightarrow>
         io_bind (priv_buildConfig e) (\<lambda>config.
         io_bind (priv_saveConfig e config) (\<lambda>_.
         io_bind (catch_ignore (exec e ''wg-quick down wg0'')) (\<lambda>_.
         io_bind (wg_quick_up e) (\<lambda>_.
         io_bind (priv_syncConfig e) (\<lambda>_.
         return config))))) w)"

definition saveConfig :: "env \<Rightarrow> unit io" where
  "saveConfig e =
     io_bind (getConfig e) (\<lambda>config.
     io_bind (priv_saveConfig e config) (\<lambda>_.
     priv_syncConfig e))"

section \<open>Peers\<close>

text \<open>
  \<open>getClient\<close> reads \<open>config.clients[clientId]\<close> and throws when the value is falsy. The
  registry is modelled by its own keys, with \<open>map_of\<close>. On the plain object of the source
  an id that names a property inherited from \<open>Object.prototype\<close> (\<open>constructor\<close>,
  \<open>toString\<close>, \<open>__proto__\<close>, ...) and is no key of the registry is found through the
  prototype chain, so that the source does not throw for it; the model covers the ids
  that are keys of the registry and the ids that name no inherited property. Every
  statement below about a call that starts with \<open>getClient\<close> is about an id that is a key
  of the registry.
\<close>

definition getClient :: "env \<Rightarrow> string \<Rightarrow> client io" where
  "getClient e clientId =
     io_bind (getConfig e) (\<lambda>config.
     case map_of (clients config) clientId of
       None \<Rightarrow> throw (ServerError (''Client Not Found: '' @ clientId) 404)
     | Some client \<Rightarrow> return client)"

text \<open>
  The objects handed out by \<open>getConfig\<close> and \<open>getClient\<close> are the cached ones, so an
  assignment to a property of \<open>client\<close> or to \<open>config.clients[id]\<close> changes the cache.
\<close>

definition modifyClients ::
  "((string \<times> client) list \<Rightarrow> (string \<times> client) list) \<Rightarrow> unit io" where
  "modifyClients f = (\<lambda>w.
     (Inr (),
      w\<lparr>configPromise :=
          (case configPromise w of
             Some (Inr config) \<Rightarrow> Some (Inr (config\<lparr>clients := f (clients config)\<rparr>))
           | other \<Rightarrow> other)\<rparr>))"

definition assignClient :: "string \<Rightarrow> (client \<Rightarrow> client) \<Rightarrow> unit io" where
  "assignClient clientId f = modifyClients (AList.map_entry clientId f)"

text \<open>
  The address scan of \<open>createClient\<close>. Its body evaluates the identifier \<open>clients\<close>;
  \<open>clients_binding\<close> is what that identifier is bound to in the enclosing scope
  (\<open>None\<close>: it is not declared, and strict-mode code raises a ReferenceError).
\<close>

function calculateNextIP :: "client list option \<Rightarrow> int \<Rightarrow> int \<Rightarrow> error + string option" where
  "calculateNextIP clients_binding i upper =
     (if i \<le> upper then
        (let currentIp = fromLong i in
         case clients_binding of
           None \<Rightarrow> Inl (ReferenceError ''clients is not defined'')
         | Some cs \<Rightarrow>
             (case find (\<lambda>client. address client = currentIp) cs of
                None \<Rightarrow> Inr (Some currentIp)
              | Some client \<Rightarrow> calculateNextIP clients_binding (i + 1) upper))
      else Inr None)"
  by pat_completeness auto
termination
  by (relation "measure (\<lambda>(b, i, upper). nat (upper + 1 - i))") auto

declare calculateNextIP.simps [simp del]

definition lift :: "error + 'a \<Rightarrow> 'a io" where
  "lift r = (\<lambda>w. (r, w))"

text \<open>
  \<open>createClient\<close>. The scope of the scan holds \<open>name\<close>, \<open>expiredDate\<close>, \<open>config\<close>, the
  three keys, \<open>cidr\<close>, \<open>address\<close>, \<open>i\<close> and \<open>currentIp\<close>, and the module's imports and
  constants; none of them is called \<open>clients\<close>.
\<close>

definition createClient :: "env \<Rightarrow> string \<Rightarrow> string option \<Rightarrow> client io" where
  "createClient e name' expiredDate =
     (if name' = [] then throw (Error ''Missing: Name'')
      else
        io_bind (getConfig e) (\<lambda>config.
        io_bind (exec e ''wg genkey'') (\<lambda>privateKey'.
        io_bind (exec e (''echo '' @ privateKey' @ '' | wg pubkey'')) (\<lambda>publicKey'.
        io_bind (exec e ''wg genpsk'') (\<lambda>preSharedKey'.
        io_bind (lift (calculateNextIP None (cidrFirst e + 1) (cidrLast e - 1))) (\<lambda>found.
        case found of
          None \<Rightarrow> throw (Error ''Maximum number of clients reached.'')
        | Some address' \<Rightarrow>
            io_bind (crypto_randomUUID e) (\<lambda>id.
            io_bind (newDate e) (\<lambda>created.
            io_bind (newDate e) (\<lambda>updated.
            let client = \<lparr>
                  id_c = id,
                  name = name',
                  address = address',
                  privateKey = Val privateKey',
                  publicKey = publicKey',
                  preSharedKey = Val preSharedKey',
                  createdAt = Val (DateObj (Some created)),
                  updatedAt = Val (DateObj (Some updated)),
                  expiredAt =
                    (case expiredDate of
                       None \<Rightarrow> Null
                     | Some d \<Rightarrow> if d = [] then Null else Val (DateObj (endOfDay e d))),
                  enabled = True,
                  allowedIPs = Undefined,
                  oneTimeLink = Undefined,
                  oneTimeLinkExpiresAt = Undefined\<rparr>
            in
            io_bind (modifyClients (AList.update id client)) (\<lambda>_.
            io_bind (saveConfig e) (\<lambda>_.
            return client)))))))))))"

text \<open>\<open>client.updatedAt = new Date()\<close>.\<close>

definition stampClient :: "env \<Rightarrow> string \<Rightarrow> unit io" where
  "stampClient e clientId =
     io_bind (newDate e) (\<lambda>now.
     assignClient clientId (\<lambda>c. c\<lparr>updatedAt := Val (DateObj (Some now))\<rparr>))"

definition enableClient :: "env \<Rightarrow> string \<Rightarrow> unit io" where
  "enableClient e clientId =
     io_bind (getClient e clientId) (\<lambda>client.
     io_bind (assignClient clientId (\<lambda>c. c\<lparr>enabled := True\<rparr>)) (\<lambda>_.
     io_bind (stampClient e clientId) (\<lambda>_.
     saveConfig e)))"

definition disableClient :: "env \<Rightarrow> string \<Rightarrow> unit io" where
  "disableClient e clientId =
     io_bind (getClient e clientId) (\<lambda>client.
     io_bind (assignClient clientId (\<lambda>c. c\<lparr>enabled := False\<rparr>)) (\<lambda>_.
     io_bind (stampClient e clientId) (\<lambda>_.
     saveConfig e)))"

definition eraseOneTimeLink :: "env \<Rightarrow> string \<Rightarrow> unit io" where
  "eraseOneTimeLink e clientId =
     io_bind (getClient e clientId) (\<lambda>client.
     io_bind (newDate e) (\<lambda>now.
     io_bind (assignClient clientId
        (\<lambda>c. c\<lparr>oneTimeLinkExpiresAt := Val (DateObj (Some (now + 10 * 1000)))\<rparr>)) (\<lambda>_.
     io_bind (stampClient e clientId) (\<lambda>_.
     saveConfig e))))"

definition updateClientName :: "env \<Rightarrow> string \<Rightarrow> string \<Rightarrow> unit io" where
  "updateClientName e clientId name' =
     io_bind (getClient e clientId) (\<lambda>client.
     io_bind (assignClient clientId (\<lambda>c. c\<lparr>name := name'\<rparr>)) (\<lambda>_.
     io_bind (stampClient e clientId) (\<lambda>_.
     saveConfig e)))"

definition updateClientExpireDate :: "env \<Rightarrow> string \<Rightarrow> string option \<Rightarrow> unit io" where
  "updateClientExpireDate e clientId expireDate =
     io_bind (getClient e clientId) (\<lambda>client.
     io_bind (assignClient clientId (\<lambda>c. c\<lparr>expiredAt :=
        (case expireDate of
           None \<Rightarrow> Null
         | Some d \<Rightarrow> if d = [] then Null else Val (DateObj (endOfDay e d)))\<rparr>)) (\<lambda>_.
     io_bind (stampClient e clientId) (\<lambda>_.
     saveConfig e)))"

section \<open>Backup and restore\<close>

definition priv_reloadConfig :: "env \<Rightarrow> unit io" where
  "priv_reloadConfig e =
     io_bind (priv_buildConfig e) (\<lambda>_.
     priv_syncConfig e)"

definition restoreConfiguration :: "env \<Rightarrow> json_text \<Rightarrow> unit io" where
  "restoreConfiguration e config =
     io_bind (lift (JSON_parse config)) (\<lambda>config'.
     io_bind (priv_saveConfig e config') (\<lambda>_.
     priv_reloadConfig e))"

definition backupConfiguration :: "env \<Rightarrow> json_text io" where
  "backupConfiguration e =
     io_bind (getConfig e) (\<lambda>config.
     return (JSON_stringify config))"

text \<open>\<open>restore(await backup())\<close>.\<close>

definition backupThenRestore :: "env \<Rightarrow> unit io" where
  "backupThenRestore e = io_bind (backupConfiguration e) (\<lambda>backup. restoreConfiguration e backup)"

section \<open>The scheduler\<close>

text \<open>The time value of \<open>new Date(v)\<close>; \<open>None\<close> is NaN.\<close>

fun toDate :: "stamp field \<Rightarrow> int option" where
  "toDate Undefined = None"
| "toDate Null = Some 0"
| "toDate (Val (DateObj t)) = t"
| "toDate (Val (IsoStr t)) = Some t"







section \<open>Live status\<close>

text \<open>
  \<open>Number(v)\<close> and \<open>new Date(n)\<close> are kept as the conversions they are: the claims
  depend on which text is converted, not on the number it denotes.
\<close>

datatype js_number = Number "string field"

datatype js_date = NewDate js_number

text \<open>The objects \<open>getClients\<close> returns (the prefix \<open>v_\<close> tells their fields from the registry's).\<close>

record clientView =
  v_id :: string
  v_name :: string
  v_enabled :: bool
  v_address :: string
  v_publicKey :: string
  v_createdAt :: "int option"
  v_updatedAt :: "int option"
  v_expiredAt :: "int option field"
  v_allowedIPs :: "string field"
  v_oneTimeLink :: "string field"
  v_oneTimeLinkExpiresAt :: "stamp field"
  downloadableConfig :: bool
  persistentKeepalive :: "string field"
  latestHandshakeAt :: "js_date field"
  transferRx :: "js_number field"
  transferTx :: "js_number field"
  endpoint :: "string field"

text \<open>\<open>v ?? null\<close>.\<close>

definition nullish :: "'a field \<Rightarrow> 'a field" where
  "nullish v = (case v of Undefined \<Rightarrow> Null | other \<Rightarrow> other)"

definition toView :: "string \<Rightarrow> client \<Rightarrow> clientView" where
  "toView clientId client = \<lparr>
     v_id = clientId,
     v_name = name client,
     v_enabled = enabled client,
     v_address = address client,
     v_publicKey = publicKey client,
     v_createdAt = toDate (createdAt client),
     v_updatedAt = toDate (updatedAt client),
     v_expiredAt = (if expiredAt client \<noteq> Null then Val (toDate (expiredAt client)) else Null),
     v_allowedIPs = allowedIPs client,
     v_oneTimeLink = nullish (oneTimeLink client),
     v_oneTimeLinkExpiresAt = nullish (oneTimeLinkExpiresAt client),
     downloadableConfig = (privateKey client \<noteq> Undefined),
     persistentKeepalive = Null,
     latestHandshakeAt = Null,
     transferRx = Null,
     transferTx = Null,
     endpoint = Null\<rparr>"

text \<open>\<open>String.prototype.trim\<close> and \<open>split\<close> on a one-character separator, over ASCII.\<close>

definition isSpace :: "char \<Rightarrow> bool" where
  "isSpace c = List.member [CHR 0x09, CHR 0x0A, CHR 0x0B, CHR 0x0C, CHR 0x0D, CHR 0x20] c"

definition trim :: "string \<Rightarrow> string" where
  "trim s = rev (dropWhile isSpace (rev (dropWhile isSpace s)))"

fun split :: "char \<Rightarrow> string \<Rightarrow> string list" where
  "split sep [] = [[]]"
| "split sep (c # cs) =
     (if c = sep then [] # split sep cs
      else (case split sep cs of
              [] \<Rightarrow> [[c]]
            | x # xs \<Rightarrow> (c # x) # xs))"

text \<open>Array destructuring: a position past the end gives \<open>undefined\<close>.\<close>

definition column :: "string list \<Rightarrow> nat \<Rightarrow> string field" where
  "column cols i = (if i < length cols then Val (cols ! i) else Undefined)"

text \<open>\<open>clients.find(p)\<close> followed by assignments to the object found.\<close>

fun updateFirst :: "('a \<Rightarrow> bool) \<Rightarrow> ('a \<Rightarrow> 'a) \<Rightarrow> 'a list \<Rightarrow> 'a list" where
  "updateFirst p f [] = []"
| "updateFirst p f (x # xs) = (if p x then f x # xs else x # updateFirst p f xs)"

text \<open>The assignments of the \<open>forEach\<close> body to the client a dump line matches.\<close>

definition setStatus :: "string list \<Rightarrow> clientView \<Rightarrow> clientView" where
  "setStatus cols client =
     (let endpoint' = column cols 2;
          latestHandshakeAt' = column cols 4;
          transferRx' = column cols 5;
          transferTx' = column cols 6;
          persistentKeepalive' = column cols 7
      in client\<lparr>
           latestHandshakeAt :=
             (if latestHandshakeAt' = Val ''0'' then Null
              else Val (NewDate (Number (Val (field_text latestHandshakeAt' @ ''000''))))),
           endpoint := (if endpoint' = Val ''(none)'' then Null else endpoint'),
           transferRx := Val (Number transferRx'),
           transferTx := Val (Number transferTx'),
           persistentKeepalive := persistentKeepalive'\<rparr>)"

definition applyStatus :: "clientView list \<Rightarrow> string \<Rightarrow> clientView list" where
  "applyStatus views line =
     (let cols = split (CHR 0x09) line;
          publicKey' = column cols 0
      in updateFirst (\<lambda>client. Val (v_publicKey client) = publicKey') (setStatus cols) views)"

definition dumpLines :: "string \<Rightarrow> string list" where
  "dumpLines dump = drop 1 (split nl (trim dump))"

definition getClients :: "env \<Rightarrow> clientView list io" where
  "getClients e =
     io_bind (getConfig e) (\<lambda>config.
     let views = map (\<lambda>(clientId, client). toView clientId client) (clients config) in
     io_bind (exec e ''wg show wg0 dump'') (\<lambda>dump.
     return (foldl applyStatus views (dumpLines dump))))"

section \<open>Observations and scenarios\<close>

subsection \<open>Registry lookups and sequences of calls\<close>

text \<open>The registry's entry for an id, when the cached promise has resolved.\<close>

definition clientOf :: "string \<Rightarrow> world \<Rightarrow> client option" where
  "clientOf k w = (case configPromise w of Some (Inr cfg) \<Rightarrow> map_of (clients cfg) k | _ \<Rightarrow> None)"

definition updatedTime :: "string \<Rightarrow> world \<Rightarrow> int option" where
  "updatedTime k w = (case clientOf k w of Some c \<Rightarrow> toDate (updatedAt c) | None \<Rightarrow> None)"

text \<open>
  A sequence of \<open>enableClient\<close> (\<open>True\<close>) and \<open>disableClient\<close> (\<open>False\<close>) calls on one
  id, each awaited before the next: the states after each call.
\<close>

fun toggleCalls :: "env \<Rightarrow> string \<Rightarrow> bool list \<Rightarrow> world \<Rightarrow> world list" where
  "toggleCalls e k [] w = []"
| "toggleCalls e k (b # bs) w =
     (let w' = snd ((if b then enableClient e k else disableClient e k) w)
      in w' # toggleCalls e k bs w')"

text \<open>Every time value is a number and later than the one before it.\<close>

fun strictlyLater :: "int option list \<Rightarrow> bool" where
  "strictlyLater (Some a # Some b # rest) = (a < b \<and> strictlyLater (Some b # rest))"
| "strictlyLater [Some a] = True"
| "strictlyLater [] = True"
| "strictlyLater other = False"

text \<open>
  The shape \<open>enableClient\<close>, \<open>disableClient\<close> and \<open>updateClientName\<close> share (look the
  client up, assign, stamp, save), and the state in which the save then runs.
\<close>

definition mutate :: "env \<Rightarrow> string \<Rightarrow> (client \<Rightarrow> client) \<Rightarrow> unit io" where
  "mutate e k f =
     io_bind (getClient e k) (\<lambda>client.
     io_bind (assignClient k f) (\<lambda>_.
     io_bind (stampClient e k) (\<lambda>_.
     saveConfig e)))"

definition mutated :: "env \<Rightarrow> string \<Rightarrow> (client \<Rightarrow> client) \<Rightarrow> config \<Rightarrow> world \<Rightarrow> world" where
  "mutated e k f cfg w = w\<lparr>ticks := Suc (ticks w),
     configPromise := Some (Inr (cfg\<lparr>clients :=
       AList.map_entry k (\<lambda>c. c\<lparr>updatedAt := Val (DateObj (Some (clock e (ticks w))))\<rparr>)
         (AList.map_entry k f (clients cfg))\<rparr>))\<rparr>"

subsection \<open>Dump records\<close>

abbreviation tab :: char where
  "tab \<equiv> CHR 0x09"

text \<open>The public key a dump line carries: its first column.\<close>

definition recordKey :: "string \<Rightarrow> string field" where
  "recordKey line = column (split tab line) 0"

text \<open>The last of the lines that carry a key.\<close>

definition lastRecord :: "string \<Rightarrow> string list \<Rightarrow> string option" where
  "lastRecord pk ls = find (\<lambda>line. recordKey line = Val pk) (rev ls)"

text \<open>What one dump line does to the view of the client with key \<open>pk\<close>.\<close>

definition stepStatus :: "string \<Rightarrow> clientView \<Rightarrow> string \<Rightarrow> clientView" where
  "stepStatus pk v line = (if recordKey line = Val pk then setStatus (split tab line) v else v)"

subsection \<open>The sweeps as functions of the clock\<close>









subsection \<open>The rendered text as lines\<close>

text \<open>
  The rendered text seen as lines: each line is written after a line break. The lines of
  the interface block and of a peer block, and the peers the loop of \<open>__saveConfig\<close> does
  not skip. A snapshot is line-safe when none of the values the renderer interpolates
  (the server's key and address, the port and the four hooks, and each enabled peer's
  name, id, public key, pre-shared key and address) holds a line break.
\<close>

definition joinLines :: "string list \<Rightarrow> string" where
  "joinLines ls = concat (map (\<lambda>l. nl # l) ls)"

definition interfaceLines :: "env \<Rightarrow> config \<Rightarrow> string list" where
  "interfaceLines e config =
     [''# Note: Do not edit this file directly.'',
      ''# Your changes will be overwritten!'',
      [],
      ''# Server'',
      ''[Interface]'',
      ''PrivateKey = '' @ template (map_of (server config) ''privateKey''),
      ''Address = '' @ template (map_of (server config) ''address''),
      ''ListenPort = '' @ WG_PORT e,
      ''PreUp = '' @ WG_PRE_UP e,
      ''PostUp = '' @ WG_POST_UP e,
      ''PreDown = '' @ WG_PRE_DOWN e,
      ''PostDown = '' @ WG_POST_DOWN e,
      []]"

definition peerLines :: "string \<Rightarrow> client \<Rightarrow> string list" where
  "peerLines clientId client =
     [[],
      ''# Client: '' @ name client @ '' ('' @ clientId @ '')'',
      ''[Peer]'',
      ''PublicKey = '' @ publicKey client] @
     (if truthy (preSharedKey client)
      then [''PresharedKey = '' @ field_text (preSharedKey client)] else []) @
     [''AllowedIPs = '' @ address client @ ''/32'']"

definition enabledPeers :: "config \<Rightarrow> (string \<times> client) list" where
  "enabledPeers config = filter (\<lambda>(clientId, client). enabled client) (clients config)"

definition singleLine :: "string \<Rightarrow> bool" where
  "singleLine s = (nl \<notin> set s)"

definition lineSafe :: "env \<Rightarrow> config \<Rightarrow> bool" where
  "lineSafe e config =
     (singleLine (template (map_of (server config) ''privateKey'')) \<and>
      singleLine (template (map_of (server config) ''address'')) \<and>
      singleLine (WG_PORT e) \<and>
      singleLine (WG_PRE_UP e) \<and> singleLine (WG_POST_UP e) \<and>
      singleLine (WG_PRE_DOWN e) \<and> singleLine (WG_POST_DOWN e) \<and>
      list_all (\<lambda>(clientId, client).
          singleLine (name client) \<and> singleLine clientId \<and> singleLine (publicKey client) \<and>
          singleLine (field_text (preSharedKey client)) \<and> singleLine (address client))
        (enabledPeers config))"

subsection \<open>Concrete scenarios\<close>

definition snapshot :: "(string \<times> client) list \<Rightarrow> config" where
  "snapshot cs = \<lparr>server = [(''privateKey'', ''PRIVATE''), (''publicKey'', ''PUBLIC''),
                             (''address'', ''10.8.0.1'')],
                   clients = cs\<rparr>"

text \<open>
  A concrete environment (subnet 10.8.0.0/24, whose first address is 10.8.0.1 and last
  10.8.0.254; every external call succeeds; the clock advances by one at each reading)
  and concrete registries.
\<close>

definition env0 :: env where
  "env0 = \<lparr>
     WG_HOST = ''vpn.example.org'',
     WG_PORT = ''51820'',
     WG_PRE_UP = [],
     WG_POST_UP = [],
     WG_PRE_DOWN = [],
     WG_POST_DOWN = [],
     WG_ENABLE_EXPIRES_TIME = ''true'',
     WG_ENABLE_ONE_TIME_LINKS = ''true'',
     cidrFirst = 168296449,
     cidrLast = 168296702,
     clock = (\<lambda>n. 1000 + int n),
     execResult = (\<lambda>n cmd.
        if cmd = ''wg genkey'' then Inr ''PRIVATE''
        else if cmd = ''wg genpsk'' then Inr ''SHARED''
        else Inr ''PUBLIC''),
     writeOk = (\<lambda>n. True),
     randomUUID = (\<lambda>n. ''uuid''),
     endOfDay = (\<lambda>d. if d = ''2030-01-01'' then Some 1893542399000 else None)\<rparr>"

definition alice :: client where
  "alice = \<lparr>id_c = ''a'', name = ''alice'', address = ''10.8.0.2'',
     privateKey = Val ''PRIVATE-A'', publicKey = ''PUBLIC-A'', preSharedKey = Val ''SHARED-A'',
     createdAt = Val (IsoStr 10), updatedAt = Val (IsoStr 20), expiredAt = Val (IsoStr 500),
     enabled = True, allowedIPs = Undefined,
     oneTimeLink = Val ''1a2b3c'', oneTimeLinkExpiresAt = Val (IsoStr 900)\<rparr>"

definition bob :: client where
  "bob = \<lparr>id_c = ''b'', name = ''bob'', address = ''10.8.0.3'',
     privateKey = Undefined, publicKey = ''PUBLIC-B'', preSharedKey = Undefined,
     createdAt = Val (IsoStr 11), updatedAt = Val (IsoStr 21), expiredAt = Null,
     enabled = False, allowedIPs = Undefined,
     oneTimeLink = Null, oneTimeLinkExpiresAt = Null\<rparr>"

text \<open>A name that holds line breaks, and with them the lines of a peer block.\<close>

definition brokenName :: string where
  "brokenName =
     ''eve'' @ [nl] @ ''[Peer]'' @ [nl] @ ''PublicKey = EVIL'' @ [nl] @ ''AllowedIPs = 0.0.0.0/0''"

definition registry :: "(string \<times> client) list \<Rightarrow> world" where
  "registry cs = \<lparr>
     configPromise = Some (Inr \<lparr>server = [(''privateKey'', ''PRIVATE''), (''publicKey'', ''PUBLIC''),
                                           (''address'', ''10.8.0.1'')],
                                 clients = cs\<rparr>),
     wg0_json = None, wg0_conf = None, ticks = 0, execLog = [], writeLog = [], uuids = 0\<rparr>"

definition firstBoot :: world where
  "firstBoot = \<lparr>configPromise = None, wg0_json = None, wg0_conf = None,
                 ticks = 0, execLog = [], writeLog = [], uuids = 0\<rparr>"

definition carol :: client where
  "carol = \<lparr>id_c = ''c'', name = ''carol'', address = ''10.8.0.4'',
     privateKey = Val ''PRIVATE-C'', publicKey = ''PUBLIC-C'', preSharedKey = Val ''SHARED-C'',
     createdAt = Val (IsoStr 12), updatedAt = Val (IsoStr 22), expiredAt = Val (IsoStr 5000),
     enabled = True, allowedIPs = Undefined,
     oneTimeLink = Undefined, oneTimeLinkExpiresAt = Undefined\<rparr>"


text \<open>
  A dump: the interface line, then the records \<open>rows0\<close> (peer A without handshake or
  endpoint, an unknown key, peer C with both), then a final line break.
\<close>

definition tsv :: "string list \<Rightarrow> string" where
  "tsv cols = (case cols of [] \<Rightarrow> [] | c # cs \<Rightarrow> c @ concat (map (\<lambda>x. tab # x) cs))"

definition rows0 :: "string list list" where
  "rows0 =
     [[''PUBLIC-A'', ''SHARED-A'', ''(none)'', ''10.8.0.2/32'', ''0'', ''0'', ''0'', ''off''],
      [''PUBLIC-X'', ''(none)'', ''198.51.100.9:51820'', ''10.8.0.9/32'', ''1699999999'', ''1'', ''2'', ''off''],
      [''PUBLIC-C'', ''SHARED-C'', ''192.0.2.7:4500'', ''10.8.0.4/32'', ''1700000000'', ''10'', ''20'', ''25'']]"

definition dump1 :: string where
  "dump1 = tsv [''PRIVATE'', ''PUBLIC'', ''51820'', ''off''] @ joinLines (map tsv rows0) @ [nl]"

definition envDump1 :: env where
  "envDump1 = env0\<lparr>execResult := (\<lambda>n cmd. Inr dump1)\<rparr>"

section \<open>The cached registry, saving, and the mutators\<close>

lemma getConfig_cached: "configPromise w = Some r \<Longrightarrow> getConfig e w = (r, w)"
  by (simp add: getConfig_def)

lemma getClient_found:
  "configPromise w = Some (Inr cfg) \<Longrightarrow> map_of (clients cfg) k = Some c \<Longrightarrow>
   getClient e k w = (Inr c, w)"
  by (simp add: getClient_def io_bind_def getConfig_cached return_def)

lemma priv_saveConfig_frame:
  "configPromise (snd (priv_saveConfig e cfg w)) = configPromise w \<and>
   ticks (snd (priv_saveConfig e cfg w)) = ticks w \<and>
   uuids (snd (priv_saveConfig e cfg w)) = uuids w \<and>
   execLog (snd (priv_saveConfig e cfg w)) = execLog w"
  by (simp add: priv_saveConfig_def io_bind_def writeFile_json_def writeFile_conf_def)

lemma priv_syncConfig_frame:
  "configPromise (snd (priv_syncConfig e w)) = configPromise w \<and>
   ticks (snd (priv_syncConfig e w)) = ticks w \<and>
   uuids (snd (priv_syncConfig e w)) = uuids w \<and>
   wg0_json (snd (priv_syncConfig e w)) = wg0_json w \<and>
   wg0_conf (snd (priv_syncConfig e w)) = wg0_conf w \<and>
   writeLog (snd (priv_syncConfig e w)) = writeLog w"
  by (simp add: priv_syncConfig_def io_bind_def exec_def return_def split: sum.splits)

lemma saveConfig_frame:
  "configPromise w = Some r \<Longrightarrow>
   configPromise (snd (saveConfig e w)) = Some r \<and>
   ticks (snd (saveConfig e w)) = ticks w \<and> uuids (snd (saveConfig e w)) = uuids w"
  apply (cases r)
   apply (simp add: saveConfig_def io_bind_def getConfig_cached)
  apply (simp add: saveConfig_def getConfig_cached io_bind_def split: prod.splits sum.splits)
  by (metis priv_saveConfig_frame priv_syncConfig_frame snd_conv)

text \<open>What a save returns: success, or the failure of a write or of the sync command.\<close>

lemma saveConfig_result:
  "configPromise w = Some (Inr cfg) \<Longrightarrow>
   fst (saveConfig e w) = Inr () \<or> (\<exists>m. fst (saveConfig e w) = Inl (FsError m)) \<or>
   (\<exists>m. fst (saveConfig e w) = Inl (ExecError m))"
  by (auto simp: saveConfig_def getConfig_cached io_bind_def priv_saveConfig_def
      writeFile_json_def writeFile_conf_def priv_syncConfig_def exec_def return_def
      split: sum.splits prod.splits if_splits)

lemma saveConfig_ok:
  assumes "configPromise w = Some (Inr cfg)"
    and "writeOk e (length (writeLog w))" and "writeOk e (Suc (length (writeLog w)))"
    and "execResult e (length (execLog w)) ''wg syncconf wg0 <(wg-quick strip wg0)'' = Inr out"
  shows "fst (saveConfig e w) = Inr ()"
    and "wg0_json (snd (saveConfig e w)) = Some (JSON_stringify cfg)"
    and "wg0_conf (snd (saveConfig e w)) = Some (renderConfig e cfg)"
    and "writeLog (snd (saveConfig e w)) = writeLog w @ [''wg0.json'', ''wg0.conf'']"
  using assms
  by (simp_all add: saveConfig_def getConfig_cached io_bind_def priv_saveConfig_def
      writeFile_json_def writeFile_conf_def priv_syncConfig_def exec_def return_def)

lemma assignClient_resolved:
  "configPromise w = Some (Inr cfg) \<Longrightarrow>
   assignClient k f w =
     (Inr (), w\<lparr>configPromise := Some (Inr (cfg\<lparr>clients := AList.map_entry k f (clients cfg)\<rparr>))\<rparr>)"
  by (simp add: assignClient_def modifyClients_def)

lemma stampClient_resolved:
  "configPromise w = Some (Inr cfg) \<Longrightarrow>
   stampClient e k w =
     (Inr (), w\<lparr>ticks := Suc (ticks w),
                configPromise := Some (Inr (cfg\<lparr>clients :=
                  AList.map_entry k (\<lambda>c. c\<lparr>updatedAt := Val (DateObj (Some (clock e (ticks w))))\<rparr>)
                    (clients cfg)\<rparr>))\<rparr>)"
  by (simp add: stampClient_def io_bind_def newDate_def assignClient_resolved)

lemma map_of_map_entry_same:
  "map_of xs k = Some c \<Longrightarrow> map_of (AList.map_entry k f xs) k = Some (f c)"
  by (simp add: map_of_map_entry)

lemma map_of_map_entry_other:
  "k' \<noteq> k \<Longrightarrow> map_of (AList.map_entry k f xs) k' = map_of xs k'"
  by (simp add: map_of_map_entry)

lemma mutate_resolved:
  assumes "configPromise w = Some (Inr cfg)" and "map_of (clients cfg) k = Some c"
  shows "mutate e k f w = saveConfig e (mutated e k f cfg w)"
  using assms
  by (simp add: mutate_def mutated_def io_bind_def getClient_found assignClient_resolved
      stampClient_resolved)

lemma clientOf_mutated:
  assumes "map_of (clients cfg) k = Some c"
  shows "clientOf k (mutated e k f cfg w) =
           Some ((f c)\<lparr>updatedAt := Val (DateObj (Some (clock e (ticks w))))\<rparr>)"
  using assms by (simp add: clientOf_def mutated_def map_of_map_entry)

lemma clientOf_saveConfig:
  "configPromise w = Some r \<Longrightarrow> clientOf k (snd (saveConfig e w)) = clientOf k w"
  by (simp add: clientOf_def saveConfig_frame)

lemma clientOf_resolved:
  "clientOf k w = Some c \<Longrightarrow> \<exists>cfg. configPromise w = Some (Inr cfg) \<and> map_of (clients cfg) k = Some c"
  by (auto simp: clientOf_def split: option.splits sum.splits)

lemma mutate_clientOf:
  assumes "clientOf k w = Some c"
  shows "clientOf k (snd (mutate e k f w)) =
           Some ((f c)\<lparr>updatedAt := Val (DateObj (Some (clock e (ticks w))))\<rparr>)"
    and "ticks (snd (mutate e k f w)) = Suc (ticks w)"
proof -
  from assms obtain cfg where cp: "configPromise w = Some (Inr cfg)"
    and mo: "map_of (clients cfg) k = Some c"
    using clientOf_resolved by blast
  have m: "mutate e k f w = saveConfig e (mutated e k f cfg w)"
    using cp mo by (rule mutate_resolved)
  have cpm: "configPromise (mutated e k f cfg w) = Some (Inr (cfg\<lparr>clients :=
       AList.map_entry k (\<lambda>c. c\<lparr>updatedAt := Val (DateObj (Some (clock e (ticks w))))\<rparr>)
         (AList.map_entry k f (clients cfg))\<rparr>))"
    by (simp add: mutated_def)
  show "clientOf k (snd (mutate e k f w)) =
           Some ((f c)\<lparr>updatedAt := Val (DateObj (Some (clock e (ticks w))))\<rparr>)"
    by (simp only: m clientOf_saveConfig [OF cpm] clientOf_mutated [OF mo])
  show "ticks (snd (mutate e k f w)) = Suc (ticks w)"
    using saveConfig_frame [OF cpm, of e] by (simp add: m mutated_def)
qed

lemma enableClient_mutate: "enableClient e k = mutate e k (\<lambda>c. c\<lparr>enabled := True\<rparr>)"
  by (simp add: enableClient_def mutate_def)

lemma disableClient_mutate: "disableClient e k = mutate e k (\<lambda>c. c\<lparr>enabled := False\<rparr>)"
  by (simp add: disableClient_def mutate_def)

lemma updateClientName_mutate: "updateClientName e k n = mutate e k (\<lambda>c. c\<lparr>name := n\<rparr>)"
  by (simp add: updateClientName_def mutate_def)

lemma toggle_step:
  assumes "clientOf k w = Some c"
  shows "clientOf k (snd ((if b then enableClient e k else disableClient e k) w)) =
           Some (c\<lparr>enabled := b, updatedAt := Val (DateObj (Some (clock e (ticks w))))\<rparr>)"
    and "ticks (snd ((if b then enableClient e k else disableClient e k) w)) = Suc (ticks w)"
  using mutate_clientOf [OF assms]
  by (cases b; simp add: enableClient_mutate disableClient_mutate)+

section \<open>Address allocation in \<open>createClient\<close>\<close>

lemma fromLong_10_8_0_1: "fromLong 168296449 = ''10.8.0.1''"
  by code_simp

lemma calculateNextIP_unbound:
  "calculateNextIP None i upper =
     (if i \<le> upper then Inl (ReferenceError ''clients is not defined'') else Inr None)"
  by (simp add: calculateNextIP.simps)

lemma createClient_never_returns:
  "\<exists>err. fst (createClient e n d w) = Inl err"
  by (auto simp: createClient_def throw_def io_bind_def lift_def calculateNextIP_unbound
      split: prod.splits sum.splits)

text \<open>
  Were the identifier bound to a list of peers, the scan would never fail and would
  return the lowest address in range that no peer holds, or nothing when all are held.
\<close>

lemma calculateNextIP_bound:
  "calculateNextIP (Some cs) i upper = r \<Longrightarrow>
   (case r of
      Inl err \<Rightarrow> False
    | Inr None \<Rightarrow> (\<forall>j. i \<le> j \<and> j \<le> upper \<longrightarrow> fromLong j \<in> address ` set cs)
    | Inr (Some a) \<Rightarrow>
        (\<exists>n. i \<le> n \<and> n \<le> upper \<and> a = fromLong n \<and> a \<notin> address ` set cs \<and>
             (\<forall>j. i \<le> j \<and> j < n \<longrightarrow> fromLong j \<in> address ` set cs)))"
proof (induction "Some cs" i upper arbitrary: r rule: calculateNextIP.induct)
  case (1 i upper)
  show ?case
  proof (cases "i \<le> upper")
    case False
    with "1.prems" show ?thesis
      by (auto simp: calculateNextIP.simps [of "Some cs" i upper])
  next
    case True
    show ?thesis
    proof (cases "find (\<lambda>client. address client = fromLong i) cs")
      case None
      then have free: "fromLong i \<notin> address ` set cs"
        by (auto simp: find_None_iff)
      from None True "1.prems" have "r = Inr (Some (fromLong i))"
        by (simp add: calculateNextIP.simps [of "Some cs" i upper])
      moreover have "i \<le> i \<and> i \<le> upper \<and> fromLong i = fromLong i \<and>
          fromLong i \<notin> address ` set cs \<and>
          (\<forall>j. i \<le> j \<and> j < i \<longrightarrow> fromLong j \<in> address ` set cs)"
        using True free by auto
      ultimately show ?thesis
        by (simp only: sum.case option.case) blast
    next
      case (Some client)
      then have taken: "fromLong i \<in> address ` set cs"
        by (auto simp: find_Some_iff) (metis imageI nth_mem)
      from Some True "1.prems" have rec: "calculateNextIP (Some cs) (i + 1) upper = r"
        by (simp add: calculateNextIP.simps [of "Some cs" i upper])
      have step: "\<And>j. i \<le> j \<Longrightarrow> j = i \<or> i + 1 \<le> j"
        by linarith
      note ih = "1.hyps" [OF True refl refl Some rec]
      show ?thesis
      proof (cases r)
        case (Inl err)
        with ih show ?thesis by simp
      next
        case (Inr found)
        show ?thesis
        proof (cases found)
          case None
          with ih Inr have "\<forall>j. i + 1 \<le> j \<and> j \<le> upper \<longrightarrow> fromLong j \<in> address ` set cs"
            by simp
          with taken step have "\<forall>j. i \<le> j \<and> j \<le> upper \<longrightarrow> fromLong j \<in> address ` set cs"
            by blast
          with None Inr show ?thesis by simp
        next
          case (Some a)
          with ih Inr obtain n where n: "i + 1 \<le> n" "n \<le> upper" "a = fromLong n"
            "a \<notin> address ` set cs"
            "\<forall>j. i + 1 \<le> j \<and> j < n \<longrightarrow> fromLong j \<in> address ` set cs"
            by auto
          from n(5) taken step have "\<forall>j. i \<le> j \<and> j < n \<longrightarrow> fromLong j \<in> address ` set cs"
            by blast
          moreover have "i \<le> n" using n(1) by linarith
          ultimately have "\<exists>n. i \<le> n \<and> n \<le> upper \<and> a = fromLong n \<and> a \<notin> address ` set cs \<and>
             (\<forall>j. i \<le> j \<and> j < n \<longrightarrow> fromLong j \<in> address ` set cs)"
            using n by blast
          with Some Inr show ?thesis by simp
        qed
      qed
    qed
  qed
qed


text \<open>
  C1. The claim asks that \<open>createClient\<close> with a non-empty name assigns the lowest free
  address strictly between the subnet's first and last address. The scan reads the
  undeclared identifier \<open>clients\<close> (the registry's peers are \<open>config.clients\<close>), so on the
  subnet 10.8.0.0/24 with an empty registry the call generates the three keys and then
  fails with a ReferenceError on the first candidate, 10.8.0.2: no peer is created.
\<close>

theorem createClient_ReferenceError:
  "createClient env0 ''alice'' None (registry []) =
     (Inl (ReferenceError ''clients is not defined''),
      (registry [])\<lparr>execLog := [''wg genkey'', ''echo PRIVATE | wg pubkey'', ''wg genpsk'']\<rparr>)"
  by (simp add: createClient_def env0_def registry_def io_bind_def getConfig_def
      exec_def lift_def calculateNextIP_unbound)

section \<open>First boot\<close>

text \<open>
  C2. The claim asks that on first boot the generated server identity has an \<open>address\<close>
  field holding the subnet's first address, and that the interface block's Address line
  carries it. \<open>__buildConfig\<close> stores that address under the key \<open>firstAddress\<close>, while
  \<open>__saveConfig\<close> reads \<open>config.server.address\<close>: on the subnet 10.8.0.0/24 the snapshot
  written is \<open>{server: {privateKey, publicKey, firstAddress}, clients: {}}\<close> and the
  rendered line is \<open>Address = undefined\<close>.
\<close>

theorem getConfig_first_boot:
  "fst (getConfig env0 firstBoot) =
     Inr \<lparr>server = [(''privateKey'', ''PRIVATE''), (''publicKey'', ''PUBLIC''),
                     (''firstAddress'', ''10.8.0.1'')],
          clients = []\<rparr> \<and>
   wg0_json (snd (getConfig env0 firstBoot)) =
     Some (Stringified
       \<lparr>server = [(''privateKey'', ''PRIVATE''), (''publicKey'', ''PUBLIC''),
                  (''firstAddress'', ''10.8.0.1'')],
        clients = []\<rparr>) \<and>
   wg0_conf (snd (getConfig env0 firstBoot)) =
     Some ([nl] @ ''# Note: Do not edit this file directly.'' @
           [nl] @ ''# Your changes will be overwritten!'' @
           [nl] @
           [nl] @ ''# Server'' @
           [nl] @ ''[Interface]'' @
           [nl] @ ''PrivateKey = PRIVATE'' @
           [nl] @ ''Address = undefined'' @
           [nl] @ ''ListenPort = 51820'' @
           [nl] @ ''PreUp = '' @
           [nl] @ ''PostUp = '' @
           [nl] @ ''PreDown = '' @
           [nl] @ ''PostDown = '' @
           [nl])"
  by (simp add: getConfig_def firstBoot_def env0_def io_bind_def priv_buildConfig_def
      readFile_json_def exec_def return_def fromLong_10_8_0_1 priv_saveConfig_def
      writeFile_json_def writeFile_conf_def JSON_stringify_def toJSON_config_def
      renderConfig_def interfaceBlock_def template_def catch_ignore_def wg_quick_up_def
      priv_syncConfig_def)

lemma first_boot_server_has_no_address:
  assumes "configPromise w = None" and "wg0_json w = None"
    and "fst (getConfig e w) = Inr cfg"
  shows "map_of (server cfg) ''address'' = None"
    and "map fst (server cfg) = [''privateKey'', ''publicKey'', ''firstAddress'']"
  using assms
  by (auto simp: getConfig_def io_bind_def priv_buildConfig_def readFile_json_def throw_def
      return_def Let_def split: prod.splits sum.splits if_splits)

section \<open>Creation rejects an empty name\<close>

text \<open>
  C3. \<open>createClient\<close> with an empty name fails with the error \<open>Missing: Name\<close> (the
  spec's ValidationError) before anything else runs: the whole state (the cached
  registry, both files, the log of external commands, the clock and the UUID source) is
  returned as it was, so no key was generated, no address allocated and nothing written.
\<close>

theorem createClient_empty_name:
  "createClient e [] expiredDate w = (Inl (Error ''Missing: Name''), w)"
  by (simp add: createClient_def throw_def)

section \<open>Erasing a one-time link\<close>

lemma eraseOneTimeLink_resolved:
  assumes "configPromise w = Some (Inr cfg)" and "map_of (clients cfg) k = Some c"
  shows "eraseOneTimeLink e k w =
           saveConfig e (w\<lparr>ticks := Suc (Suc (ticks w)),
             configPromise := Some (Inr (cfg\<lparr>clients :=
               AList.map_entry k (\<lambda>c. c\<lparr>updatedAt := Val (DateObj (Some (clock e (Suc (ticks w)))))\<rparr>)
                 (AList.map_entry k
                    (\<lambda>c. c\<lparr>oneTimeLinkExpiresAt := Val (DateObj (Some (clock e (ticks w) + 10 * 1000)))\<rparr>)
                    (clients cfg))\<rparr>))\<rparr>)"
  using assms
  by (simp add: eraseOneTimeLink_def io_bind_def getClient_found newDate_def
      assignClient_resolved stampClient_resolved)

text \<open>
  C6 (as amended). For every existing peer, \<open>eraseOneTimeLink\<close> leaves \<open>oneTimeLink\<close> as
  it was (the assignment of \<open>null\<close> is commented out in the source), sets
  \<open>oneTimeLinkExpiresAt\<close> to ten seconds after the time of the call, and stamps
  \<open>updatedAt\<close> with the next reading of the clock; every other field is unchanged.
\<close>

theorem eraseOneTimeLink_keeps_token:
  assumes "clientOf k w = Some c"
  shows "clientOf k (snd (eraseOneTimeLink e k w)) =
           Some (c\<lparr>oneTimeLinkExpiresAt := Val (DateObj (Some (clock e (ticks w) + 10 * 1000))),
                   updatedAt := Val (DateObj (Some (clock e (Suc (ticks w)))))\<rparr>)"
proof -
  from assms obtain cfg where cp: "configPromise w = Some (Inr cfg)"
    and mo: "map_of (clients cfg) k = Some c"
    using clientOf_resolved by blast
  let ?w1 = "w\<lparr>ticks := Suc (Suc (ticks w)),
             configPromise := Some (Inr (cfg\<lparr>clients :=
               AList.map_entry k (\<lambda>c. c\<lparr>updatedAt := Val (DateObj (Some (clock e (Suc (ticks w)))))\<rparr>)
                 (AList.map_entry k
                    (\<lambda>c. c\<lparr>oneTimeLinkExpiresAt := Val (DateObj (Some (clock e (ticks w) + 10 * 1000)))\<rparr>)
                    (clients cfg))\<rparr>))\<rparr>"
  obtain r where cp1: "configPromise ?w1 = Some r"
    by simp
  have "clientOf k (snd (eraseOneTimeLink e k w)) = clientOf k ?w1"
    by (simp only: eraseOneTimeLink_resolved [OF cp mo] clientOf_saveConfig [OF cp1])
  also have "\<dots> = Some (c\<lparr>oneTimeLinkExpiresAt := Val (DateObj (Some (clock e (ticks w) + 10 * 1000))),
                   updatedAt := Val (DateObj (Some (clock e (Suc (ticks w)))))\<rparr>)"
    using mo by (simp add: clientOf_def map_of_map_entry)
  finally show ?thesis .
qed

text \<open>Witness: a peer with the link \<open>1a2b3c\<close>, erased at time 1000.\<close>

theorem eraseOneTimeLink_keeps_token_witness:
  "clientOf ''a'' (registry [(''a'', alice)]) = Some alice \<and>
   clientOf ''a'' (snd (eraseOneTimeLink env0 ''a'' (registry [(''a'', alice)]))) =
     Some (alice\<lparr>oneTimeLinkExpiresAt := Val (DateObj (Some 11000)),
                 updatedAt := Val (DateObj (Some 1001))\<rparr>)"
proof -
  have h: "clientOf ''a'' (registry [(''a'', alice)]) = Some alice"
    by (simp add: clientOf_def registry_def)
  show ?thesis
    using eraseOneTimeLink_keeps_token [OF h, of env0] h
    by (simp add: env0_def registry_def)
qed

text \<open>
  C6 as stated fails: after \<open>eraseOneTimeLink\<close> the peer's \<open>oneTimeLink\<close> is still the
  token, not \<open>null\<close>.
\<close>

theorem eraseOneTimeLink_counterexample:
  "oneTimeLink alice \<noteq> Null \<and>
   map_option oneTimeLink
     (clientOf ''a'' (snd (eraseOneTimeLink env0 ''a'' (registry [(''a'', alice)]))))
   = Some (Val ''1a2b3c'')"
  by (simp add: eraseOneTimeLink_def io_bind_def getClient_def getConfig_def registry_def
      return_def newDate_def assignClient_def modifyClients_def stampClient_def
      saveConfig_def priv_saveConfig_def writeFile_json_def writeFile_conf_def env0_def
      priv_syncConfig_def exec_def clientOf_def alice_def)

section \<open>Enabling and disabling\<close>

lemma toggleCalls_trace:
  "clientOf k w = Some c \<Longrightarrow>
   map (clientOf k) (toggleCalls e k ops w) =
     map (\<lambda>i. Some (c\<lparr>enabled := ops ! i,
                         updatedAt := Val (DateObj (Some (clock e (ticks w + i))))\<rparr>))
       [0..<length ops]"
proof (induction ops arbitrary: w c)
  case Nil
  then show ?case by simp
next
  case (Cons b bs)
  let ?w1 = "snd ((if b then enableClient e k else disableClient e k) w)"
  let ?c1 = "c\<lparr>enabled := b, updatedAt := Val (DateObj (Some (clock e (ticks w))))\<rparr>"
  have c1: "clientOf k ?w1 = Some ?c1" and t1: "ticks ?w1 = Suc (ticks w)"
    using toggle_step [OF Cons.prems] by auto
  have tail: "map (clientOf k) (toggleCalls e k bs ?w1) =
     map (\<lambda>i. Some (c\<lparr>enabled := bs ! i,
                         updatedAt := Val (DateObj (Some (clock e (Suc (ticks w) + i))))\<rparr>))
       [0..<length bs]"
    using Cons.IH [OF c1] by (simp add: t1)
  have "[0..<length (b # bs)] = 0 # map Suc [0..<length bs]"
    by (simp add: upt_conv_Cons map_Suc_upt del: upt_Suc)
  then show ?case
    using c1 tail by (simp add: Let_def o_def del: upt_Suc)
qed

lemma strictlyLater_clock:
  "strict_mono f \<Longrightarrow> t0 < f n \<Longrightarrow>
   strictlyLater (Some t0 # map (\<lambda>i. Some (f (n + i))) [0..<m])"
proof (induction m arbitrary: t0 n)
  case 0
  then show ?case by simp
next
  case (Suc m)
  have "f n < f (Suc n)"
    using Suc.prems(1) by (simp add: strict_mono_def)
  from Suc.IH [OF Suc.prems(1) this]
  have "strictlyLater (Some (f n) # map (\<lambda>i. Some (f (Suc n + i))) [0..<m])" .
  moreover have "[0..<Suc m] = 0 # map Suc [0..<m]"
    by (simp add: upt_conv_Cons map_Suc_upt del: upt_Suc)
  ultimately show ?case
    using Suc.prems(2) by (simp add: o_def del: upt_Suc)
qed

text \<open>
  C8. For every existing peer and every sequence of \<open>enableClient\<close> and \<open>disableClient\<close>
  calls on it, after each call the peer is still registered with the same \<open>id\<close>,
  \<open>publicKey\<close> and \<open>address\<close>, and it differs from the original in no field other than
  \<open>enabled\<close> and \<open>updatedAt\<close>. If every reading of the clock is later than the one before
  and the peer's \<open>updatedAt\<close> was earlier than the current time, then each call leaves an
  \<open>updatedAt\<close> strictly later than the one before it.
\<close>

theorem toggle_cycle_frame:
  assumes "clientOf k w = Some c"
  shows "list_all (\<lambda>w'. \<exists>c'. clientOf k w' = Some c' \<and>
             id_c c' = id_c c \<and> publicKey c' = publicKey c \<and> address c' = address c \<and>
             c'\<lparr>enabled := enabled c, updatedAt := updatedAt c\<rparr> = c)
           (toggleCalls e k ops w) \<and>
         (strict_mono (clock e) \<and> toDate (updatedAt c) = Some t0 \<and> t0 < clock e (ticks w) \<longrightarrow>
            strictlyLater (Some t0 # map (updatedTime k) (toggleCalls e k ops w)))"
proof -
  note tr = toggleCalls_trace [OF assms, of e ops]
  have frame: "list_all (\<lambda>w'. \<exists>c'. clientOf k w' = Some c' \<and>
             id_c c' = id_c c \<and> publicKey c' = publicKey c \<and> address c' = address c \<and>
             c'\<lparr>enabled := enabled c, updatedAt := updatedAt c\<rparr> = c)
           (toggleCalls e k ops w)"
    unfolding list_all_iff
  proof
    fix w' assume "w' \<in> set (toggleCalls e k ops w)"
    then have "clientOf k w' \<in> set (map (clientOf k) (toggleCalls e k ops w))"
      by simp
    then obtain i where "clientOf k w' = Some (c\<lparr>enabled := ops ! i,
                         updatedAt := Val (DateObj (Some (clock e (ticks w + i))))\<rparr>)"
      unfolding tr by auto
    then show "\<exists>c'. clientOf k w' = Some c' \<and>
             id_c c' = id_c c \<and> publicKey c' = publicKey c \<and> address c' = address c \<and>
             c'\<lparr>enabled := enabled c, updatedAt := updatedAt c\<rparr> = c"
      by simp
  qed
  have times: "map (updatedTime k) (toggleCalls e k ops w) =
                 map (\<lambda>i. Some (clock e (ticks w + i))) [0..<length ops]"
  proof -
    have "map (updatedTime k) (toggleCalls e k ops w) =
            map (\<lambda>r. case r of Some c \<Rightarrow> toDate (updatedAt c) | None \<Rightarrow> None)
              (map (clientOf k) (toggleCalls e k ops w))"
      by (simp add: updatedTime_def o_def)
    also have "\<dots> = map (\<lambda>i. Some (clock e (ticks w + i))) [0..<length ops]"
      unfolding tr by (simp add: o_def del: upt_Suc)
    finally show ?thesis .
  qed
  show ?thesis
    using frame strictlyLater_clock [of "clock e" t0 "ticks w" "length ops"]
    by (simp add: times del: upt_Suc)
qed

text \<open>Witness: enable, disable, enable on a peer last updated at time 20.\<close>

theorem toggle_cycle_frame_witness:
  "clientOf ''a'' (registry [(''a'', alice), (''b'', bob)]) = Some alice \<and>
   strict_mono (clock env0) \<and> toDate (updatedAt alice) = Some 20 \<and>
   20 < clock env0 (ticks (registry [(''a'', alice), (''b'', bob)])) \<and>
   list_all (\<lambda>w'. \<exists>c'. clientOf ''a'' w' = Some c' \<and>
             id_c c' = ''a'' \<and> publicKey c' = ''PUBLIC-A'' \<and> address c' = ''10.8.0.2'' \<and>
             c'\<lparr>enabled := True, updatedAt := Val (IsoStr 20)\<rparr> = alice)
     (toggleCalls env0 ''a'' [True, False, True] (registry [(''a'', alice), (''b'', bob)])) \<and>
   strictlyLater (Some 20 # map (updatedTime ''a'')
     (toggleCalls env0 ''a'' [True, False, True] (registry [(''a'', alice), (''b'', bob)])))"
proof -
  have h1: "clientOf ''a'' (registry [(''a'', alice), (''b'', bob)]) = Some alice"
    by (simp add: clientOf_def registry_def)
  have h2: "strict_mono (clock env0)"
    by (simp add: env0_def strict_mono_def)
  have h3: "toDate (updatedAt alice) = Some 20"
    by (simp add: alice_def)
  have h4: "20 < clock env0 (ticks (registry [(''a'', alice), (''b'', bob)]))"
    by (simp add: env0_def registry_def)
  have h5: "id_c alice = ''a''" "publicKey alice = ''PUBLIC-A''" "address alice = ''10.8.0.2''"
    "enabled alice = True" "updatedAt alice = Val (IsoStr 20)"
    by (simp_all add: alice_def)
  show ?thesis
    using toggle_cycle_frame [OF h1, of env0 "[True, False, True]" 20] h1 h2 h3 h4
    by (simp only: h5 simp_thms)
qed

section \<open>Renaming\<close>

text \<open>
  C10. For every existing peer and every string \<open>n\<close>, the empty one included,
  \<open>updateClientName\<close> stores \<open>n\<close> as the name and stamps \<open>updatedAt\<close>; it does not fail
  with \<open>Missing: Name\<close> as creation does: it returns normally or with the failure of a
  file write or of the sync command, and when those succeed it returns normally with both
  files written once from the renamed registry.
\<close>

theorem updateClientName_any_string:
  assumes "clientOf k w = Some c"
  shows "clientOf k (snd (updateClientName e k n w)) =
           Some (c\<lparr>name := n, updatedAt := Val (DateObj (Some (clock e (ticks w))))\<rparr>) \<and>
         fst (updateClientName e k n w) \<noteq> Inl (Error ''Missing: Name'') \<and>
         (fst (updateClientName e k n w) = Inr () \<or>
          (\<exists>m. fst (updateClientName e k n w) = Inl (FsError m)) \<or>
          (\<exists>m. fst (updateClientName e k n w) = Inl (ExecError m))) \<and>
         (writeOk e (length (writeLog w)) \<and> writeOk e (Suc (length (writeLog w))) \<and>
          execResult e (length (execLog w)) ''wg syncconf wg0 <(wg-quick strip wg0)'' = Inr out
          \<longrightarrow> fst (updateClientName e k n w) = Inr () \<and>
              (\<exists>cfg'. configPromise (snd (updateClientName e k n w)) = Some (Inr cfg') \<and>
                 wg0_json (snd (updateClientName e k n w)) = Some (JSON_stringify cfg') \<and>
                 wg0_conf (snd (updateClientName e k n w)) = Some (renderConfig e cfg') \<and>
                 writeLog (snd (updateClientName e k n w)) =
                   writeLog w @ [''wg0.json'', ''wg0.conf'']))"
proof -
  from assms obtain cfg where cp: "configPromise w = Some (Inr cfg)"
    and mo: "map_of (clients cfg) k = Some c"
    using clientOf_resolved by blast
  let ?f = "\<lambda>c. c\<lparr>name := n\<rparr>"
  let ?w1 = "mutated e k ?f cfg w"
  have run: "updateClientName e k n w = saveConfig e ?w1"
    by (simp add: updateClientName_mutate mutate_resolved [OF cp mo])
  obtain cfg1 where cp1: "configPromise ?w1 = Some (Inr cfg1)"
    by (simp add: mutated_def)
  have logs: "writeLog ?w1 = writeLog w" "execLog ?w1 = execLog w"
    by (simp_all add: mutated_def)
  have stored: "clientOf k (snd (updateClientName e k n w)) =
           Some (c\<lparr>name := n, updatedAt := Val (DateObj (Some (clock e (ticks w))))\<rparr>)"
    using mutate_clientOf(1) [OF assms, of e ?f] by (simp add: updateClientName_mutate)
  have res: "fst (saveConfig e ?w1) = Inr () \<or> (\<exists>m. fst (saveConfig e ?w1) = Inl (FsError m)) \<or>
             (\<exists>m. fst (saveConfig e ?w1) = Inl (ExecError m))"
    by (rule saveConfig_result [OF cp1])
  have ok: "fst (saveConfig e ?w1) = Inr () \<and>
            (\<exists>cfg'. configPromise (snd (saveConfig e ?w1)) = Some (Inr cfg') \<and>
               wg0_json (snd (saveConfig e ?w1)) = Some (JSON_stringify cfg') \<and>
               wg0_conf (snd (saveConfig e ?w1)) = Some (renderConfig e cfg') \<and>
               writeLog (snd (saveConfig e ?w1)) = writeLog w @ [''wg0.json'', ''wg0.conf''])"
    if io: "writeOk e (length (writeLog w))" "writeOk e (Suc (length (writeLog w)))"
      "execResult e (length (execLog w)) ''wg syncconf wg0 <(wg-quick strip wg0)'' = Inr out"
    using saveConfig_ok [OF cp1, of e out] saveConfig_frame [OF cp1, of e] io
    by (simp add: logs)
  show ?thesis
    unfolding run using stored res ok by (auto simp: run)
qed

text \<open>Witness: renaming a peer to the empty string.\<close>

theorem updateClientName_any_string_witness:
  "clientOf ''b'' (registry [(''a'', alice), (''b'', bob)]) = Some bob \<and>
   clientOf ''b'' (snd (updateClientName env0 ''b'' [] (registry [(''a'', alice), (''b'', bob)]))) =
     Some (bob\<lparr>name := [], updatedAt := Val (DateObj (Some 1000))\<rparr>) \<and>
   fst (updateClientName env0 ''b'' [] (registry [(''a'', alice), (''b'', bob)])) = Inr ()"
proof -
  let ?w = "registry [(''a'', alice), (''b'', bob)]"
  have h: "clientOf ''b'' ?w = Some bob"
    by (simp add: clientOf_def registry_def)
  have io: "writeOk env0 (length (writeLog ?w))" "writeOk env0 (Suc (length (writeLog ?w)))"
    "execResult env0 (length (execLog ?w)) ''wg syncconf wg0 <(wg-quick strip wg0)'' = Inr ''PUBLIC''"
    by (simp_all add: env0_def)
  have t: "clock env0 (ticks ?w) = 1000"
    by (simp add: env0_def registry_def)
  show ?thesis
    using updateClientName_any_string [OF h, of env0 "[]" "''PUBLIC''"] h io
    by (simp add: t)
qed

section \<open>Rendering the daemon configuration\<close>

lemma foldl_render:
  "foldl (\<lambda>result (clientId, client).
              if \<not> enabled client then result
              else result @ peerBlock clientId client) acc cs =
   acc @ concat (map (\<lambda>(k, c). peerBlock k c) (filter (\<lambda>(k, c). enabled c) cs))"
  by (induction cs arbitrary: acc) (auto simp: split_def)

lemma renderConfig_blocks:
  "renderConfig e cfg =
     interfaceBlock e cfg @ concat (map (\<lambda>(k, c). peerBlock k c) (enabledPeers cfg))"
  by (simp add: renderConfig_def foldl_render enabledPeers_def)

lemma interfaceBlock_lines: "interfaceBlock e cfg = joinLines (interfaceLines e cfg)"
  by (simp add: interfaceBlock_def joinLines_def interfaceLines_def)

lemma peerBlock_lines: "peerBlock k c = joinLines (peerLines k c)"
  by (simp add: peerBlock_def joinLines_def peerLines_def)

lemma joinLines_append: "joinLines (xs @ ys) = joinLines xs @ joinLines ys"
  by (simp add: joinLines_def)

lemma joinLines_concat: "concat (map joinLines xss) = joinLines (concat xss)"
  by (induction xss) (simp_all add: joinLines_def)

lemma renderConfig_lines:
  "renderConfig e cfg =
     joinLines (interfaceLines e cfg @ concat (map (\<lambda>(k, c). peerLines k c) (enabledPeers cfg)))"
proof -
  have "concat (map (\<lambda>(k, c). peerBlock k c) (enabledPeers cfg)) =
        concat (map joinLines (map (\<lambda>(k, c). peerLines k c) (enabledPeers cfg)))"
    by (simp add: peerBlock_lines split_def o_def)
  then show ?thesis
    by (simp only: renderConfig_blocks interfaceBlock_lines joinLines_concat joinLines_append)
qed

lemma split_nonempty: "split sep s \<noteq> []"
  by (induction s) (auto split: list.splits)

lemma split_append_sep: "split sep (a @ sep # b) = split sep a @ split sep b"
proof (induction a)
  case Nil
  then show ?case by simp
next
  case (Cons c cs)
  then show ?case
    using split_nonempty [of sep cs] by (cases "split sep cs") auto
qed

lemma split_no_sep: "sep \<notin> set s \<Longrightarrow> split sep s = [s]"
  by (induction s) auto

lemma split_line_joinLines:
  "sep = nl \<Longrightarrow> nl \<notin> set l \<Longrightarrow> \<forall>x\<in>set ls. nl \<notin> set x \<Longrightarrow>
   split sep (l @ joinLines ls) = l # ls"
proof (induction ls arbitrary: l)
  case Nil
  then show ?case by (simp add: joinLines_def split_no_sep)
next
  case (Cons l' rest)
  have "split sep (l @ joinLines (l' # rest)) = split sep (l @ sep # (l' @ joinLines rest))"
    using Cons.prems(1) by (simp add: joinLines_def)
  also have "\<dots> = split sep l @ split sep (l' @ joinLines rest)"
    by (rule split_append_sep)
  also have "\<dots> = l # l' # rest"
    using Cons by (simp add: split_no_sep)
  finally show ?case .
qed

lemma split_joinLines:
  "\<forall>x\<in>set ls. nl \<notin> set x \<Longrightarrow> split nl (joinLines ls) = [] # ls"
  using split_line_joinLines [of nl "[]" ls] by simp

lemma filter_concat_map_single:
  "(\<And>x. x \<in> set xs \<Longrightarrow> filter P (f x) = [g x]) \<Longrightarrow>
   filter P (concat (map f xs)) = map g xs"
  by (induction xs) simp_all

lemma peerLines_header: "filter (\<lambda>l. l = ''[Peer]'') (peerLines k c) = [''[Peer]'']"
  by (simp add: peerLines_def)

lemma peerLines_allowed:
  "filter (\<lambda>l. take 13 l = ''AllowedIPs = '') (peerLines k c) =
     [''AllowedIPs = '' @ address c @ ''/32'']"
  by (simp add: peerLines_def)

lemma interfaceLines_no_peer:
  "filter (\<lambda>l. l = ''[Peer]'') (interfaceLines e cfg) = []"
  "filter (\<lambda>l. take 13 l = ''AllowedIPs = '') (interfaceLines e cfg) = []"
  by (simp_all add: interfaceLines_def)

lemma peerBlock_clause:
  "\<exists>head. peerBlock k c = head @ [nl] @ ''AllowedIPs = '' @ address c @ ''/32''"
proof (cases "truthy (preSharedKey c)")
  case True
  then have "peerBlock k c =
      ([nl] @ [nl] @ ''# Client: '' @ name c @ '' ('' @ k @ '')'' @ [nl] @ ''[Peer]'' @
       [nl] @ ''PublicKey = '' @ publicKey c @
       [nl] @ ''PresharedKey = '' @ field_text (preSharedKey c)) @
      [nl] @ ''AllowedIPs = '' @ address c @ ''/32''"
    by (simp add: peerBlock_def)
  then show ?thesis by blast
next
  case False
  then have "peerBlock k c =
      ([nl] @ [nl] @ ''# Client: '' @ name c @ '' ('' @ k @ '')'' @ [nl] @ ''[Peer]'' @
       [nl] @ ''PublicKey = '' @ publicKey c) @
      [nl] @ ''AllowedIPs = '' @ address c @ ''/32''"
    by (simp add: peerBlock_def)
  then show ?thesis by blast
qed

lemma peerLines_client:
  "filter (\<lambda>l. take 10 l = ''# Client: '') (peerLines k c) =
     [''# Client: '' @ name c @ '' ('' @ k @ '')'']"
  by (simp add: peerLines_def)

lemma interfaceLines_no_client:
  "filter (\<lambda>l. take 10 l = ''# Client: '') (interfaceLines e cfg) = []"
  by (simp add: interfaceLines_def)

lemma lineSafe_lines:
  assumes "lineSafe e cfg"
  shows "\<forall>x\<in>set (interfaceLines e cfg @
            concat (map (\<lambda>(k, c). peerLines k c) (enabledPeers cfg))). nl \<notin> set x"
proof -
  have "\<forall>x\<in>set (interfaceLines e cfg). nl \<notin> set x"
    using assms by (simp add: lineSafe_def singleLine_def interfaceLines_def)
  moreover have "nl \<notin> set x" if "(k, c) \<in> set (enabledPeers cfg)" "x \<in> set (peerLines k c)" for k c x
  proof -
    from assms that(1) have "singleLine (name c) \<and> singleLine k \<and> singleLine (publicKey c) \<and>
        singleLine (field_text (preSharedKey c)) \<and> singleLine (address c)"
      by (auto simp: lineSafe_def list_all_iff)
    with that(2) show ?thesis
      by (auto simp: peerLines_def singleLine_def split: if_splits)
  qed
  ultimately show ?thesis by auto
qed

text \<open>
  C4 as stated fails, since nothing keeps a line break out of a name. Renaming peer A
  to \<open>brokenName\<close> succeeds and writes a daemon configuration for a registry with one
  enabled peer that holds two \<open>[Peer]\<close> lines and two \<open>AllowedIPs\<close> lines, the first of them
  \<open>AllowedIPs = 0.0.0.0/0 (a)\<close>, which is not the peer's address with the suffix \<open>/32\<close>.
\<close>

theorem render_enabled_peers_counterexample:
  "fst (updateClientName env0 ''a'' brokenName (registry [(''a'', alice)])) = Inr () \<and>
   map_option (\<lambda>cfg. map (\<lambda>(k, c). (k, enabled c, address c)) (clients cfg))
     (case configPromise (snd (updateClientName env0 ''a'' brokenName (registry [(''a'', alice)]))) of
        Some (Inr cfg) \<Rightarrow> Some cfg | _ \<Rightarrow> None) = Some [(''a'', True, ''10.8.0.2'')] \<and>
   map_option (\<lambda>text. filter (\<lambda>l. l = ''[Peer]'') (split nl text))
     (wg0_conf (snd (updateClientName env0 ''a'' brokenName (registry [(''a'', alice)])))) =
     Some [''[Peer]'', ''[Peer]''] \<and>
   map_option (\<lambda>text. filter (\<lambda>l. take 13 l = ''AllowedIPs = '') (split nl text))
     (wg0_conf (snd (updateClientName env0 ''a'' brokenName (registry [(''a'', alice)])))) =
     Some [''AllowedIPs = 0.0.0.0/0 (a)'', ''AllowedIPs = 10.8.0.2/32'']"
  by (simp add: updateClientName_def getClient_def assignClient_def stampClient_def
      modifyClients_def newDate_def
      io_bind_def getConfig_def registry_def return_def throw_def
      saveConfig_def priv_saveConfig_def writeFile_json_def writeFile_conf_def env0_def
      priv_syncConfig_def exec_def alice_def brokenName_def renderConfig_def
      interfaceBlock_def peerBlock_def template_def truthy_def field_text_def)

text \<open>
  C4 (as amended). For every line-safe registry snapshot, the rendered daemon
  configuration read back line by line is an empty line, the lines of the interface
  block, and then the lines of one peer block for each enabled peer, in registry order,
  and nothing for a disabled peer. So it has exactly one \<open>[Peer]\<close> line per enabled peer,
  its \<open># Client:\<close> lines name the enabled peers and their ids, and its \<open>AllowedIPs\<close> lines
  are those of the enabled peers, each with the peer's single address and the suffix
  \<open>/32\<close>.
\<close>

theorem render_enabled_peers:
  assumes safe: "lineSafe e cfg"
  shows "split nl (renderConfig e cfg) =
        [] # interfaceLines e cfg @ concat (map (\<lambda>(k, c). peerLines k c) (enabledPeers cfg)) \<and>
      length (filter (\<lambda>l. l = ''[Peer]'') (split nl (renderConfig e cfg))) =
        length (filter (\<lambda>(k, c). enabled c) (clients cfg)) \<and>
      filter (\<lambda>l. take 10 l = ''# Client: '') (split nl (renderConfig e cfg)) =
        map (\<lambda>(k, c). ''# Client: '' @ name c @ '' ('' @ k @ '')'')
          (filter (\<lambda>(k, c). enabled c) (clients cfg)) \<and>
      filter (\<lambda>l. take 13 l = ''AllowedIPs = '') (split nl (renderConfig e cfg)) =
        map (\<lambda>(k, c). ''AllowedIPs = '' @ address c @ ''/32'')
          (filter (\<lambda>(k, c). enabled c) (clients cfg))"
proof (intro conjI)
  let ?ls = "interfaceLines e cfg @ concat (map (\<lambda>(k, c). peerLines k c) (enabledPeers cfg))"
  have en: "filter (\<lambda>(k, c). enabled c) (clients cfg) = enabledPeers cfg"
    by (simp add: enabledPeers_def)
  have "split nl (joinLines ?ls) = [] # ?ls"
    using lineSafe_lines [OF safe] by (rule split_joinLines)
  then show lines: "split nl (renderConfig e cfg) = [] # ?ls"
    by (simp only: renderConfig_lines)
  have peers: "filter (\<lambda>l. l = ''[Peer]'')
                 (concat (map (\<lambda>(k, c). peerLines k c) (enabledPeers cfg))) =
               map (\<lambda>p. ''[Peer]'') (enabledPeers cfg)"
    by (rule filter_concat_map_single) (simp add: split_def peerLines_header)
  show "length (filter (\<lambda>l. l = ''[Peer]'') (split nl (renderConfig e cfg))) =
        length (filter (\<lambda>(k, c). enabled c) (clients cfg))"
    by (simp add: lines interfaceLines_no_peer peers en)
  have heads: "filter (\<lambda>l. take 10 l = ''# Client: '')
                 (concat (map (\<lambda>(k, c). peerLines k c) (enabledPeers cfg))) =
               map (\<lambda>(k, c). ''# Client: '' @ name c @ '' ('' @ k @ '')'') (enabledPeers cfg)"
    by (rule filter_concat_map_single) (simp add: split_def peerLines_client)
  show "filter (\<lambda>l. take 10 l = ''# Client: '') (split nl (renderConfig e cfg)) =
        map (\<lambda>(k, c). ''# Client: '' @ name c @ '' ('' @ k @ '')'')
          (filter (\<lambda>(k, c). enabled c) (clients cfg))"
    by (simp add: lines interfaceLines_no_client heads en)
  have allowed: "filter (\<lambda>l. take 13 l = ''AllowedIPs = '')
                 (concat (map (\<lambda>(k, c). peerLines k c) (enabledPeers cfg))) =
               map (\<lambda>(k, c). ''AllowedIPs = '' @ address c @ ''/32'') (enabledPeers cfg)"
    by (rule filter_concat_map_single) (simp add: split_def peerLines_allowed)
  show "filter (\<lambda>l. take 13 l = ''AllowedIPs = '') (split nl (renderConfig e cfg)) =
        map (\<lambda>(k, c). ''AllowedIPs = '' @ address c @ ''/32'')
          (filter (\<lambda>(k, c). enabled c) (clients cfg))"
    by (simp add: lines interfaceLines_no_peer allowed en)
qed

text \<open>
  Witness: a snapshot with peer A enabled and peer B disabled renders exactly one peer
  block, for A, after the interface block.
\<close>

theorem render_enabled_peers_witness:
  "lineSafe env0 (snapshot [(''a'', alice), (''b'', bob)]) \<and>
   split nl (renderConfig env0 (snapshot [(''a'', alice), (''b'', bob)])) =
     [[],
      ''# Note: Do not edit this file directly.'',
      ''# Your changes will be overwritten!'',
      [],
      ''# Server'',
      ''[Interface]'',
      ''PrivateKey = PRIVATE'',
      ''Address = 10.8.0.1'',
      ''ListenPort = 51820'',
      ''PreUp = '',
      ''PostUp = '',
      ''PreDown = '',
      ''PostDown = '',
      [],
      [],
      ''# Client: alice (a)'',
      ''[Peer]'',
      ''PublicKey = PUBLIC-A'',
      ''PresharedKey = SHARED-A'',
      ''AllowedIPs = 10.8.0.2/32''] \<and>
   length (filter (\<lambda>l. l = ''[Peer]'')
     (split nl (renderConfig env0 (snapshot [(''a'', alice), (''b'', bob)])))) = 1 \<and>
   filter (\<lambda>l. take 10 l = ''# Client: '')
     (split nl (renderConfig env0 (snapshot [(''a'', alice), (''b'', bob)]))) =
     [''# Client: alice (a)''] \<and>
   filter (\<lambda>l. take 13 l = ''AllowedIPs = '')
     (split nl (renderConfig env0 (snapshot [(''a'', alice), (''b'', bob)]))) =
     [''AllowedIPs = 10.8.0.2/32'']"
proof -
  let ?cfg = "snapshot [(''a'', alice), (''b'', bob)]"
  have en: "enabledPeers ?cfg = [(''a'', alice)]"
    by (simp add: enabledPeers_def snapshot_def alice_def bob_def)
  have fl: "filter (\<lambda>(k, c). enabled c) (clients ?cfg) = [(''a'', alice)]"
    using en by (simp add: enabledPeers_def)
  have safe: "lineSafe env0 ?cfg"
    unfolding lineSafe_def en
    by (simp add: singleLine_def snapshot_def env0_def template_def field_text_def alice_def)
  have vals: "address alice = ''10.8.0.2''" "name alice = ''alice''"
    by (simp_all add: alice_def)
  have il: "interfaceLines env0 ?cfg =
     [''# Note: Do not edit this file directly.'',
      ''# Your changes will be overwritten!'',
      [],
      ''# Server'',
      ''[Interface]'',
      ''PrivateKey = PRIVATE'',
      ''Address = 10.8.0.1'',
      ''ListenPort = 51820'',
      ''PreUp = '',
      ''PostUp = '',
      ''PreDown = '',
      ''PostDown = '',
      []]"
    by (simp add: interfaceLines_def snapshot_def env0_def template_def)
  have pl: "peerLines ''a'' alice =
     [[], ''# Client: alice (a)'', ''[Peer]'', ''PublicKey = PUBLIC-A'',
      ''PresharedKey = SHARED-A'', ''AllowedIPs = 10.8.0.2/32'']"
    by (simp add: peerLines_def alice_def truthy_def field_text_def)
  from render_enabled_peers [OF safe]
  have "split nl (renderConfig env0 ?cfg) =
          [] # interfaceLines env0 ?cfg @ concat (map (\<lambda>(k, c). peerLines k c) (enabledPeers ?cfg))"
    and "length (filter (\<lambda>l. l = ''[Peer]'') (split nl (renderConfig env0 ?cfg))) =
          length (filter (\<lambda>(k, c). enabled c) (clients ?cfg))"
    and "filter (\<lambda>l. take 10 l = ''# Client: '') (split nl (renderConfig env0 ?cfg)) =
          map (\<lambda>(k, c). ''# Client: '' @ name c @ '' ('' @ k @ '')'')
            (filter (\<lambda>(k, c). enabled c) (clients ?cfg))"
    and "filter (\<lambda>l. take 13 l = ''AllowedIPs = '') (split nl (renderConfig env0 ?cfg)) =
          map (\<lambda>(k, c). ''AllowedIPs = '' @ address c @ ''/32'')
            (filter (\<lambda>(k, c). enabled c) (clients ?cfg))"
    by blast+
  then show ?thesis
    using safe by (simp add: en fl vals il pl)
qed

section \<open>Backup and restore of the registry\<close>

lemma toJSON_stamp_idem: "toJSON_stamp (toJSON_stamp v) = toJSON_stamp v"
  by (cases v rule: toJSON_stamp.cases) simp_all

lemma toJSON_client_idem: "toJSON_client (toJSON_client c) = toJSON_client c"
  by (simp add: toJSON_client_def toJSON_stamp_idem)

lemma toJSON_config_idem: "toJSON_config (toJSON_config cfg) = toJSON_config cfg"
  by (simp add: toJSON_config_def toJSON_client_idem o_def split_def)

lemma map_of_toJSON:
  "map_of (map (\<lambda>(k, c). (k, toJSON_client c)) cs) k = map_option toJSON_client (map_of cs k)"
  by (induction cs) auto

lemma backupThenRestore_resolved:
  assumes cp: "configPromise w = Some (Inr cfg)" and host: "WG_HOST e \<noteq> []"
    and w1: "writeOk e (length (writeLog w))" and w2: "writeOk e (Suc (length (writeLog w)))"
  shows "configPromise (snd (backupThenRestore e w)) = Some (Inr (toJSON_config cfg))"
    and "wg0_json (snd (backupThenRestore e w)) = Some (JSON_stringify cfg)"
  using assms
  by (simp_all add: backupThenRestore_def backupConfiguration_def restoreConfiguration_def
      io_bind_def getConfig_cached return_def lift_def JSON_stringify_def toJSON_config_idem
      priv_saveConfig_def writeFile_json_def writeFile_conf_def priv_reloadConfig_def
      priv_buildConfig_def readFile_json_def priv_syncConfig_def exec_def
      split: sum.splits)

text \<open>
  C9 (as amended). For a loaded registry, with \<open>WG_HOST\<close> set and both file writes
  succeeding, \<open>backup()\<close> followed by \<open>restore()\<close> of the text returned leaves the JSON
  image of the original snapshot: the same server identity, the same ids in the same
  order, and per id the same fields, except that a timestamp held as a \<open>Date\<close> object is
  now its ISO string, and an invalid \<open>Date\<close> is \<open>null\<close>. A snapshot that holds no \<open>Date\<close>
  object (one just loaded from disk) is reproduced exactly.
\<close>

theorem backup_restore_json_image:
  assumes "configPromise w = Some (Inr cfg)" and "WG_HOST e \<noteq> []"
    and "writeOk e (length (writeLog w))" and "writeOk e (Suc (length (writeLog w)))"
  shows "\<exists>cfg'. configPromise (snd (backupThenRestore e w)) = Some (Inr cfg') \<and>
           cfg' = toJSON_config cfg \<and>
           server cfg' = server cfg \<and>
           map fst (clients cfg') = map fst (clients cfg) \<and>
           (\<forall>k. map_of (clients cfg') k = map_option toJSON_client (map_of (clients cfg) k)) \<and>
           (list_all (\<lambda>(k, c). toJSON_client c = c) (clients cfg) \<longrightarrow> cfg' = cfg)"
proof -
  have shape: "server (toJSON_config cfg) = server cfg"
    "map fst (clients (toJSON_config cfg)) = map fst (clients cfg)"
    by (simp_all add: toJSON_config_def o_def split_def)
  have per_id: "map_of (clients (toJSON_config cfg)) k = map_option toJSON_client (map_of (clients cfg) k)"
    for k
    by (simp add: toJSON_config_def map_of_toJSON)
  have plain: "toJSON_config cfg = cfg"
    if "list_all (\<lambda>(k, c). toJSON_client c = c) (clients cfg)"
  proof -
    have "map (\<lambda>(k, c). (k, toJSON_client c)) (clients cfg) = clients cfg"
      using that by (intro map_idI) (auto simp: list_all_iff)
    then show ?thesis
      by (simp add: toJSON_config_def)
  qed
  show ?thesis
    using backupThenRestore_resolved(1) [OF assms] shape per_id plain by simp
qed

text \<open>Witness: a registry as loaded from disk comes back unchanged.\<close>

theorem backup_restore_json_image_witness:
  "configPromise (registry [(''a'', alice), (''b'', bob)]) =
     Some (Inr \<lparr>server = [(''privateKey'', ''PRIVATE''), (''publicKey'', ''PUBLIC''),
                            (''address'', ''10.8.0.1'')],
                 clients = [(''a'', alice), (''b'', bob)]\<rparr>) \<and>
   WG_HOST env0 \<noteq> [] \<and>
   writeOk env0 (length (writeLog (registry [(''a'', alice), (''b'', bob)]))) \<and>
   writeOk env0 (Suc (length (writeLog (registry [(''a'', alice), (''b'', bob)])))) \<and>
   configPromise (snd (backupThenRestore env0 (registry [(''a'', alice), (''b'', bob)]))) =
     configPromise (registry [(''a'', alice), (''b'', bob)])"
proof -
  let ?w = "registry [(''a'', alice), (''b'', bob)]"
  let ?cfg = "\<lparr>server = [(''privateKey'', ''PRIVATE''), (''publicKey'', ''PUBLIC''),
                        (''address'', ''10.8.0.1'')],
              clients = [(''a'', alice), (''b'', bob)]\<rparr>"
  have cp: "configPromise ?w = Some (Inr ?cfg)"
    by (simp add: registry_def)
  have host: "WG_HOST env0 \<noteq> []"
    by (simp add: env0_def)
  have w1: "writeOk env0 (length (writeLog ?w))" and w2: "writeOk env0 (Suc (length (writeLog ?w)))"
    by (simp_all add: env0_def)
  have plain: "list_all (\<lambda>(k, c). toJSON_client c = c) (clients ?cfg)"
    by (simp add: toJSON_client_def alice_def bob_def)
  from backup_restore_json_image [OF cp host w1 w2] plain
  have "configPromise (snd (backupThenRestore env0 ?w)) = Some (Inr ?cfg)"
    by (elim exE conjE) simp
  then show ?thesis
    using cp host w1 w2 by simp
qed

text \<open>
  C9 as stated fails: after \<open>updateClientExpireDate\<close> with a date that does not parse, the
  peer holds an invalid \<open>Date\<close> in \<open>expiredAt\<close> and a \<open>Date\<close> in \<open>updatedAt\<close>; after backup
  and restore it holds \<open>null\<close> and an ISO string.
\<close>

theorem backup_restore_counterexample:
  "clientOf ''b'' (snd (updateClientExpireDate env0 ''b'' (Some ''soon'') (registry [(''b'', bob)]))) =
     Some (bob\<lparr>expiredAt := Val (DateObj None), updatedAt := Val (DateObj (Some 1000))\<rparr>) \<and>
   clientOf ''b'' (snd (backupThenRestore env0
       (snd (updateClientExpireDate env0 ''b'' (Some ''soon'') (registry [(''b'', bob)]))))) =
     Some (bob\<lparr>expiredAt := Null, updatedAt := Val (IsoStr 1000)\<rparr>)"
  by (simp add: updateClientExpireDate_def backupThenRestore_def backupConfiguration_def
      restoreConfiguration_def io_bind_def getClient_def getConfig_def registry_def
      return_def lift_def newDate_def assignClient_def modifyClients_def stampClient_def
      saveConfig_def priv_saveConfig_def writeFile_json_def writeFile_conf_def env0_def
      priv_syncConfig_def exec_def clientOf_def JSON_stringify_def toJSON_config_def
      toJSON_client_def priv_reloadConfig_def priv_buildConfig_def readFile_json_def bob_def)

section \<open>The scheduler's sweeps\<close>



























section \<open>Merging the live status\<close>

lemma length_updateFirst: "length (updateFirst p f xs) = length xs"
  by (induction xs) auto

lemma updateFirst_nth:
  "i < length xs \<Longrightarrow>
   updateFirst p f xs ! i =
     (if p (xs ! i) \<and> (\<forall>j<i. \<not> p (xs ! j)) then f (xs ! i) else xs ! i)"
proof (induction xs arbitrary: i)
  case Nil
  then show ?case by simp
next
  case (Cons x xs)
  show ?case
  proof (cases i)
    case 0
    then show ?thesis by simp
  next
    case (Suc n)
    have all: "(\<forall>j<Suc n. \<not> p ((x # xs) ! j)) \<longleftrightarrow> (\<not> p x \<and> (\<forall>j<n. \<not> p (xs ! j)))"
      by (auto simp: less_Suc_eq_0_disj)
    from Suc Cons.prems have "n < length xs" by simp
    from Cons.IH [OF this] show ?thesis
      unfolding Suc all by auto
  qed
qed

lemma updateFirst_none: "\<forall>x\<in>set xs. \<not> p x \<Longrightarrow> updateFirst p f xs = xs"
  by (induction xs) auto

lemma setStatus_key: "v_publicKey (setStatus cols v) = v_publicKey v"
  by (simp add: setStatus_def Let_def)

lemma setStatus_overwrites: "setStatus cols (setStatus cols' v) = setStatus cols v"
  by (simp add: setStatus_def Let_def)

lemma applyStatus_keys: "map v_publicKey (applyStatus views line) = map v_publicKey views"
proof -
  have "map v_publicKey (updateFirst p (setStatus cols) vs) = map v_publicKey vs" for p cols vs
    by (induction vs) (auto simp: setStatus_key)
  then show ?thesis
    by (simp add: applyStatus_def Let_def)
qed

lemma length_applyStatus: "length (applyStatus views line) = length views"
  by (simp add: applyStatus_def Let_def length_updateFirst)

text \<open>One line, seen at one position of the list.\<close>

lemma applyStatus_nth:
  "i < length views \<Longrightarrow>
   applyStatus views line ! i =
     (if recordKey line = Val (v_publicKey (views ! i)) \<and>
         (\<forall>j<i. v_publicKey (views ! j) \<noteq> v_publicKey (views ! i))
      then setStatus (split tab line) (views ! i) else views ! i)"
  by (auto simp: applyStatus_def Let_def updateFirst_nth recordKey_def)

lemma stepStatus_match:
  "recordKey l = Val pk \<Longrightarrow> stepStatus pk v l = setStatus (split tab l) v"
  by (simp add: stepStatus_def)

lemma stepStatus_other: "recordKey l \<noteq> Val pk \<Longrightarrow> stepStatus pk v l = v"
  by (simp add: stepStatus_def)

lemma length_foldl_applyStatus: "length (foldl applyStatus views ls) = length views"
  by (induction ls arbitrary: views) (simp_all add: length_applyStatus)

lemma foldl_applyStatus_nth:
  "i < length views \<Longrightarrow>
   foldl applyStatus views ls ! i =
     (if \<forall>j<i. v_publicKey (views ! j) \<noteq> v_publicKey (views ! i)
      then foldl (stepStatus (v_publicKey (views ! i))) (views ! i) ls
      else views ! i)"
proof (induction ls arbitrary: views)
  case Nil
  then show ?case by simp
next
  case (Cons l ls)
  let ?vs = "applyStatus views l"
  have len: "i < length ?vs"
    using Cons.prems by (simp add: length_applyStatus)
  have keys: "v_publicKey (?vs ! j) = v_publicKey (views ! j)" if "j \<le> i" for j
  proof -
    have "j < length views" using that Cons.prems by simp
    then have "v_publicKey (?vs ! j) = map v_publicKey ?vs ! j"
      by (simp add: length_applyStatus)
    also have "\<dots> = v_publicKey (views ! j)"
      using \<open>j < length views\<close> by (simp add: applyStatus_keys)
    finally show ?thesis .
  qed
  have first: "(\<forall>j<i. v_publicKey (?vs ! j) \<noteq> v_publicKey (views ! i)) \<longleftrightarrow>
               (\<forall>j<i. v_publicKey (views ! j) \<noteq> v_publicKey (views ! i))"
    using keys by auto
  have "foldl applyStatus views (l # ls) ! i = foldl applyStatus ?vs ls ! i"
    by simp
  also have "\<dots> = (if \<forall>j<i. v_publicKey (views ! j) \<noteq> v_publicKey (views ! i)
      then foldl (stepStatus (v_publicKey (views ! i))) (?vs ! i) ls
      else ?vs ! i)"
    by (simp only: Cons.IH [OF len] keys [OF order_refl] first)
  also have "\<dots> = (if \<forall>j<i. v_publicKey (views ! j) \<noteq> v_publicKey (views ! i)
      then foldl (stepStatus (v_publicKey (views ! i))) (views ! i) (l # ls)
      else views ! i)"
    using Cons.prems by (auto simp: applyStatus_nth stepStatus_def)
  finally show ?case .
qed

lemma foldl_stepStatus_unmatched:
  "\<forall>l\<in>set ls. recordKey l \<noteq> Val pk \<Longrightarrow> foldl (stepStatus pk) v ls = v"
  by (induction ls arbitrary: v) (simp_all add: stepStatus_def)

lemma setStatus_foldl: "setStatus cols (foldl (stepStatus pk) v ls) = setStatus cols v"
  by (induction ls arbitrary: v) (simp_all add: stepStatus_def setStatus_overwrites)

lemma foldl_stepStatus_last:
  "lastRecord pk ls = Some l \<Longrightarrow> foldl (stepStatus pk) v ls = setStatus (split tab l) v"
proof (induction ls arbitrary: l rule: rev_induct)
  case Nil
  then show ?case by (simp add: lastRecord_def)
next
  case (snoc x xs)
  show ?case
  proof (cases "recordKey x = Val pk")
    case True
    with snoc.prems have "l = x" by (simp add: lastRecord_def)
    then show ?thesis
      using True by (simp add: stepStatus_match setStatus_foldl)
  next
    case False
    with snoc.prems have "lastRecord pk xs = Some l" by (simp add: lastRecord_def)
    from snoc.IH [OF this] show ?thesis
      using False by (simp add: stepStatus_other)
  qed
qed

lemma toView_live_null:
  "latestHandshakeAt (toView k c) = Null" "endpoint (toView k c) = Null"
  "transferRx (toView k c) = Null" "transferTx (toView k c) = Null"
  "persistentKeepalive (toView k c) = Null"
  "v_id (toView k c) = k" "v_publicKey (toView k c) = publicKey c"
  by (simp_all add: toView_def)

lemma setStatus_fields:
  "latestHandshakeAt (setStatus cols v) =
     (if column cols 4 = Val ''0'' then Null
      else Val (NewDate (Number (Val (field_text (column cols 4) @ ''000'')))))"
  "endpoint (setStatus cols v) = (if column cols 2 = Val ''(none)'' then Null else column cols 2)"
  "v_id (setStatus cols v) = v_id v"
  by (simp_all add: setStatus_def Let_def)

lemma getClients_resolved:
  assumes "configPromise w = Some (Inr cfg)"
    and "execResult e (length (execLog w)) ''wg show wg0 dump'' = Inr dump"
  shows "fst (getClients e w) =
           Inr (foldl applyStatus (map (\<lambda>(k, c). toView k c) (clients cfg)) (dumpLines dump))"
  using assms
  by (simp add: getClients_def io_bind_def getConfig_cached exec_def return_def Let_def)

lemma split_join:
  "sep \<notin> set l \<Longrightarrow> \<forall>x\<in>set ls. sep \<notin> set x \<Longrightarrow>
   split sep (l @ concat (map (\<lambda>x. sep # x) ls)) = l # ls"
proof (induction ls arbitrary: l)
  case Nil
  then show ?case by (simp add: split_no_sep)
next
  case (Cons l' rest)
  have "split sep (l @ concat (map (\<lambda>x. sep # x) (l' # rest))) =
        split sep (l @ sep # (l' @ concat (map (\<lambda>x. sep # x) rest)))"
    by simp
  also have "\<dots> = split sep l @ split sep (l' @ concat (map (\<lambda>x. sep # x) rest))"
    by (rule split_append_sep)
  also have "\<dots> = l # l' # rest"
    using Cons by (simp add: split_no_sep)
  finally show ?case .
qed

lemma split_tsv:
  "row \<noteq> [] \<Longrightarrow> \<forall>col\<in>set row. tab \<notin> set col \<Longrightarrow> split tab (tsv row) = row"
  by (cases row) (simp_all add: tsv_def split_join)

lemma trim_body:
  assumes "s \<noteq> []" and "\<not> isSpace (hd s)" and "\<not> isSpace (last s)"
    and "\<forall>ch\<in>set ws. isSpace ch"
  shows "trim (s @ ws) = s"
proof -
  from assms(1,2) have front: "dropWhile isSpace (s @ ws) = s @ ws"
    by (cases s) simp_all
  have "dropWhile isSpace (rev (s @ ws)) = dropWhile isSpace (rev ws @ rev s)"
    by simp
  also have "\<dots> = dropWhile isSpace (rev s)"
    using assms(4) by (intro dropWhile_append2) simp
  also have "\<dots> = rev s"
  proof (cases s rule: rev_cases)
    case Nil
    then show ?thesis by simp
  next
    case (snoc ys y)
    with assms(3) show ?thesis by simp
  qed
  finally show ?thesis
    by (simp add: trim_def front)
qed

lemma dumpLines_rows:
  assumes "hdr \<noteq> []" and "\<not> isSpace (hd hdr)" and "nl \<notin> set hdr"
    and "\<forall>r\<in>set recs. nl \<notin> set r"
    and "\<not> isSpace (last (hdr @ joinLines recs))" and "\<forall>ch\<in>set ws. isSpace ch"
  shows "dumpLines (hdr @ joinLines recs @ ws) = recs"
proof -
  have "trim ((hdr @ joinLines recs) @ ws) = hdr @ joinLines recs"
    using assms(1,2,5,6) by (intro trim_body) simp_all
  moreover have "split nl (hdr @ joinLines recs) = hdr # recs"
    unfolding joinLines_def using assms(3,4) by (rule split_join)
  ultimately show ?thesis
    by (simp add: dumpLines_def)
qed

lemma recordKey_tsv:
  "row \<noteq> [] \<Longrightarrow> \<forall>col\<in>set row. tab \<notin> set col \<Longrightarrow> recordKey (tsv row) = Val (hd row)"
  by (cases row) (simp_all add: recordKey_def split_tsv column_def)

lemma find_record_tsv:
  "\<forall>row\<in>set rs. row \<noteq> [] \<and> (\<forall>col\<in>set row. tab \<notin> set col) \<Longrightarrow>
   find (\<lambda>line. recordKey line = Val pk) (map tsv rs) =
     map_option tsv (find (\<lambda>row. hd row = pk) rs)"
  by (induction rs) (simp_all add: recordKey_tsv)

lemma lastRecord_tsv:
  assumes "\<forall>row\<in>set rows. row \<noteq> [] \<and> (\<forall>col\<in>set row. tab \<notin> set col)"
  shows "lastRecord pk (map tsv rows) = map_option tsv (find (\<lambda>row. hd row = pk) (rev rows))"
proof -
  have "\<forall>row\<in>set (rev rows). row \<noteq> [] \<and> (\<forall>col\<in>set row. tab \<notin> set col)"
    using assms by simp
  from find_record_tsv [OF this] show ?thesis
    by (simp add: lastRecord_def rev_map)
qed

lemma setStatus_all_fields:
  "latestHandshakeAt (setStatus cols v) =
     (if column cols 4 = Val ''0'' then Null
      else Val (NewDate (Number (Val (field_text (column cols 4) @ ''000'')))))"
  "endpoint (setStatus cols v) = (if column cols 2 = Val ''(none)'' then Null else column cols 2)"
  "transferRx (setStatus cols v) = Val (Number (column cols 5))"
  "transferTx (setStatus cols v) = Val (Number (column cols 6))"
  "persistentKeepalive (setStatus cols v) = column cols 7"
  "(setStatus cols v)\<lparr>persistentKeepalive := Null, latestHandshakeAt := Null, transferRx := Null,
      transferTx := Null, endpoint := Null\<rparr> =
   v\<lparr>persistentKeepalive := Null, latestHandshakeAt := Null, transferRx := Null,
      transferTx := Null, endpoint := Null\<rparr>"
  by (simp_all add: setStatus_def Let_def)

lemma toView_frame:
  "(toView k c)\<lparr>persistentKeepalive := Null, latestHandshakeAt := Null, transferRx := Null,
      transferTx := Null, endpoint := Null\<rparr> = toView k c"
  by (simp add: toView_def)

text \<open>The view at one position after the whole merge.\<close>

lemma getClients_nth:
  assumes i: "i < length cs"
  shows "foldl applyStatus (map (\<lambda>(k, c). toView k c) cs) ls ! i =
     (if \<forall>j<i. publicKey (snd (cs ! j)) \<noteq> publicKey (snd (cs ! i))
      then foldl (stepStatus (publicKey (snd (cs ! i))))
             (toView (fst (cs ! i)) (snd (cs ! i))) ls
      else toView (fst (cs ! i)) (snd (cs ! i)))"
proof -
  let ?views = "map (\<lambda>(k, c). toView k c) cs"
  let ?T = "toView (fst (cs ! i)) (snd (cs ! i))"
  let ?pk = "publicKey (snd (cs ! i))"
  have view: "?views ! j = toView (fst (cs ! j)) (snd (cs ! j))" if "j < length cs" for j
    using that by (simp add: split_def)
  have key: "v_publicKey (?views ! j) = publicKey (snd (cs ! j))" if "j < length cs" for j
    using that by (simp add: split_def toView_live_null)
  have iv: "i < length ?views" using i by simp
  have A: "foldl applyStatus ?views ls ! i =
     (if \<forall>j<i. v_publicKey (?views ! j) \<noteq> v_publicKey (?views ! i)
      then foldl (stepStatus (v_publicKey (?views ! i))) (?views ! i) ls
      else ?views ! i)"
    by (rule foldl_applyStatus_nth [OF iv])
  have B: "(\<forall>j<i. v_publicKey (?views ! j) \<noteq> v_publicKey (?views ! i)) \<longleftrightarrow>
       (\<forall>j<i. publicKey (snd (cs ! j)) \<noteq> ?pk)"
    using i key by auto
  show ?thesis
  proof (cases "\<forall>j<i. publicKey (snd (cs ! j)) \<noteq> ?pk")
    case True
    with B have "\<forall>j<i. v_publicKey (?views ! j) \<noteq> v_publicKey (?views ! i)"
      by blast
    then have "foldl applyStatus ?views ls ! i =
        foldl (stepStatus (v_publicKey (?views ! i))) (?views ! i) ls"
      unfolding A by (rule if_P)
    also have "\<dots> = foldl (stepStatus ?pk) ?T ls"
      by (simp only: view [OF i] toView_live_null)
    finally show ?thesis
      by (simp only: if_P [OF True])
  next
    case False
    with B have "\<not> (\<forall>j<i. v_publicKey (?views ! j) \<noteq> v_publicKey (?views ! i))"
      by blast
    then have "foldl applyStatus ?views ls ! i = ?views ! i"
      unfolding A by (rule if_not_P)
    also have "\<dots> = ?T"
      by (rule view [OF i])
    finally show ?thesis
      by (simp only: if_not_P [OF False])
  qed
qed

text \<open>
  C7. On a loaded registry, let the dump command return a header line followed by the
  records \<open>rows\<close>, one per line with tab-separated columns, and trailing white space.
  Then \<open>getClients\<close> returns one view per registry peer, in order, and each view differs
  from what \<open>toView\<close> built of its peer in the five live fields at most. A record is
  matched by its first column against the public keys. The peer whose key no record
  carries, and the peer behind an earlier peer with the same key, keep all five live
  fields \<open>null\<close>. The first peer with a key takes its live fields from the last record
  \<open>row\<close> carrying that key: \<open>latestHandshakeAt\<close> is \<open>null\<close> when column 4 is the string \<open>0\<close>
  and \<open>new Date(Number(column 4 + '000'))\<close> otherwise, \<open>endpoint\<close> is \<open>null\<close> when column
  2 is \<open>(none)\<close> and column 2 otherwise, \<open>transferRx\<close> and \<open>transferTx\<close> are \<open>Number\<close> of
  columns 5 and 6, and \<open>persistentKeepalive\<close> is column 7. No record with another key
  enters any of these values, so a record matching no registry peer is ignored.
\<close>

theorem getClients_status_merge:
  assumes cp: "configPromise w = Some (Inr cfg)"
    and ex: "execResult e (length (execLog w)) ''wg show wg0 dump'' = Inr dump"
    and dump: "dump = hdr @ joinLines (map tsv rows) @ ws"
    and hdr: "hdr \<noteq> [] \<and> \<not> isSpace (hd hdr) \<and> nl \<notin> set hdr"
    and rows: "\<forall>row\<in>set rows. row \<noteq> [] \<and> (\<forall>col\<in>set row. tab \<notin> set col \<and> nl \<notin> set col)"
    and tail: "\<not> isSpace (last (hdr @ joinLines (map tsv rows))) \<and> (\<forall>ch\<in>set ws. isSpace ch)"
  shows "\<exists>vs. fst (getClients e w) = Inr vs \<and> length vs = length (clients cfg) \<and>
     (\<forall>i<length (clients cfg).
        (vs ! i)\<lparr>persistentKeepalive := Null, latestHandshakeAt := Null, transferRx := Null,
                 transferTx := Null, endpoint := Null\<rparr> =
          toView (fst (clients cfg ! i)) (snd (clients cfg ! i)) \<and>
        ((\<forall>row\<in>set rows. hd row \<noteq> publicKey (snd (clients cfg ! i))) \<or>
         (\<exists>j<i. publicKey (snd (clients cfg ! j)) = publicKey (snd (clients cfg ! i))) \<longrightarrow>
           latestHandshakeAt (vs ! i) = Null \<and> endpoint (vs ! i) = Null \<and>
           transferRx (vs ! i) = Null \<and> transferTx (vs ! i) = Null \<and>
           persistentKeepalive (vs ! i) = Null) \<and>
        ((\<forall>j<i. publicKey (snd (clients cfg ! j)) \<noteq> publicKey (snd (clients cfg ! i))) \<longrightarrow>
           (\<forall>row. find (\<lambda>row. hd row = publicKey (snd (clients cfg ! i))) (rev rows) = Some row \<longrightarrow>
              latestHandshakeAt (vs ! i) =
                (if column row 4 = Val ''0'' then Null
                 else Val (NewDate (Number (Val (field_text (column row 4) @ ''000''))))) \<and>
              endpoint (vs ! i) = (if column row 2 = Val ''(none)'' then Null else column row 2) \<and>
              transferRx (vs ! i) = Val (Number (column row 5)) \<and>
              transferTx (vs ! i) = Val (Number (column row 6)) \<and>
              persistentKeepalive (vs ! i) = column row 7)))"
proof -
  let ?cs = "clients cfg"
  let ?ls = "map tsv rows"
  let ?vs = "foldl applyStatus (map (\<lambda>(k, c). toView k c) ?cs) ?ls"
  have good: "\<forall>row\<in>set rows. row \<noteq> [] \<and> (\<forall>col\<in>set row. tab \<notin> set col)"
    using rows by blast
  have "\<forall>r\<in>set ?ls. nl \<notin> set r"
  proof
    fix r assume "r \<in> set ?ls"
    then obtain row where row: "row \<in> set rows" "r = tsv row" by auto
    with rows have "row \<noteq> []" "\<forall>col\<in>set row. nl \<notin> set col" by blast+
    then show "nl \<notin> set r"
      unfolding row(2) by (cases row) (auto simp: tsv_def)
  qed
  with hdr tail have lines: "dumpLines dump = ?ls"
    unfolding dump by (intro dumpLines_rows) simp_all
  have res: "fst (getClients e w) = Inr ?vs"
    using getClients_resolved [OF cp ex] by (simp only: lines)
  have len: "length ?vs = length ?cs"
    by (simp add: length_foldl_applyStatus)
  have per: "(?vs ! i)\<lparr>persistentKeepalive := Null, latestHandshakeAt := Null, transferRx := Null,
                 transferTx := Null, endpoint := Null\<rparr> =
          toView (fst (?cs ! i)) (snd (?cs ! i)) \<and>
        ((\<forall>row\<in>set rows. hd row \<noteq> publicKey (snd (?cs ! i))) \<or>
         (\<exists>j<i. publicKey (snd (?cs ! j)) = publicKey (snd (?cs ! i))) \<longrightarrow>
           latestHandshakeAt (?vs ! i) = Null \<and> endpoint (?vs ! i) = Null \<and>
           transferRx (?vs ! i) = Null \<and> transferTx (?vs ! i) = Null \<and>
           persistentKeepalive (?vs ! i) = Null) \<and>
        ((\<forall>j<i. publicKey (snd (?cs ! j)) \<noteq> publicKey (snd (?cs ! i))) \<longrightarrow>
           (\<forall>row. find (\<lambda>row. hd row = publicKey (snd (?cs ! i))) (rev rows) = Some row \<longrightarrow>
              latestHandshakeAt (?vs ! i) =
                (if column row 4 = Val ''0'' then Null
                 else Val (NewDate (Number (Val (field_text (column row 4) @ ''000''))))) \<and>
              endpoint (?vs ! i) = (if column row 2 = Val ''(none)'' then Null else column row 2) \<and>
              transferRx (?vs ! i) = Val (Number (column row 5)) \<and>
              transferTx (?vs ! i) = Val (Number (column row 6)) \<and>
              persistentKeepalive (?vs ! i) = column row 7))"
    if i: "i < length ?cs" for i
  proof -
    let ?T = "toView (fst (?cs ! i)) (snd (?cs ! i))"
    let ?pk = "publicKey (snd (?cs ! i))"
    let ?first = "\<forall>j<i. publicKey (snd (?cs ! j)) \<noteq> ?pk"
    note nth = getClients_nth [OF i, of ?ls]
    have frame: "(?vs ! i)\<lparr>persistentKeepalive := Null, latestHandshakeAt := Null,
                 transferRx := Null, transferTx := Null, endpoint := Null\<rparr> = ?T"
      and idle: "(\<forall>row\<in>set rows. hd row \<noteq> ?pk) \<or> \<not> ?first \<Longrightarrow> ?vs ! i = ?T"
      and hit: "\<And>row. ?first \<Longrightarrow> find (\<lambda>row. hd row = ?pk) (rev rows) = Some row \<Longrightarrow>
                 ?vs ! i = setStatus row ?T"
    proof -
      have unm: "foldl (stepStatus ?pk) ?T ?ls = ?T" if norow: "\<forall>row\<in>set rows. hd row \<noteq> ?pk"
      proof -
        have "\<forall>l\<in>set ?ls. recordKey l \<noteq> Val ?pk"
        proof
          fix l assume "l \<in> set ?ls"
          then obtain row where row: "row \<in> set rows" "l = tsv row" by auto
          with good norow show "recordKey l \<noteq> Val ?pk"
            by (simp add: recordKey_tsv)
        qed
        then show ?thesis by (rule foldl_stepStatus_unmatched)
      qed
      have mat: "foldl (stepStatus ?pk) ?T ?ls = setStatus row ?T"
        if f: "find (\<lambda>row. hd row = ?pk) (rev rows) = Some row" for row
      proof -
        from f have "row \<in> set (rev rows)"
          unfolding find_Some_iff by (metis nth_mem)
        then have "row \<in> set rows" by simp
        with good have st: "split tab (tsv row) = row"
          by (simp add: split_tsv)
        have "lastRecord ?pk ?ls = Some (tsv row)"
          using f by (simp add: lastRecord_tsv [OF good])
        then have "foldl (stepStatus ?pk) ?T ?ls = setStatus (split tab (tsv row)) ?T"
          by (rule foldl_stepStatus_last)
        then show ?thesis by (simp only: st)
      qed
      show "(\<forall>row\<in>set rows. hd row \<noteq> ?pk) \<or> \<not> ?first \<Longrightarrow> ?vs ! i = ?T"
      proof (cases ?first)
        case True
        assume "(\<forall>row\<in>set rows. hd row \<noteq> ?pk) \<or> \<not> ?first"
        with True have "\<forall>row\<in>set rows. hd row \<noteq> ?pk" by blast
        from unm [OF this] show ?thesis
          unfolding nth by (simp only: if_P [OF True])
      next
        case False
        show ?thesis
          unfolding nth by (rule if_not_P [OF False])
      qed
      show "\<And>row. ?first \<Longrightarrow> find (\<lambda>row. hd row = ?pk) (rev rows) = Some row \<Longrightarrow>
                 ?vs ! i = setStatus row ?T"
      proof -
        fix row assume fi: ?first and f: "find (\<lambda>row. hd row = ?pk) (rev rows) = Some row"
        from mat [OF f] show "?vs ! i = setStatus row ?T"
          unfolding nth by (simp only: if_P [OF fi])
      qed
      show "(?vs ! i)\<lparr>persistentKeepalive := Null, latestHandshakeAt := Null,
                 transferRx := Null, transferTx := Null, endpoint := Null\<rparr> = ?T"
      proof (cases ?first)
        case False
        have "?vs ! i = ?T"
          unfolding nth by (rule if_not_P [OF False])
        then show ?thesis by (simp only: toView_frame)
      next
        case True
        have v: "?vs ! i = foldl (stepStatus ?pk) ?T ?ls"
          unfolding nth by (rule if_P [OF True])
        show ?thesis
        proof (cases "find (\<lambda>row. hd row = ?pk) (rev rows)")
          case None
          then have "\<forall>row\<in>set rows. hd row \<noteq> ?pk"
            by (auto simp: find_None_iff)
          from unm [OF this] show ?thesis
            by (simp only: v toView_frame)
        next
          case (Some row)
          from mat [OF Some] show ?thesis
            by (simp only: v setStatus_all_fields toView_frame)
        qed
      qed
    qed
    show ?thesis
    proof (intro conjI impI allI)
      show "(?vs ! i)\<lparr>persistentKeepalive := Null, latestHandshakeAt := Null, transferRx := Null,
                 transferTx := Null, endpoint := Null\<rparr> = ?T"
        by (rule frame)
    next
      assume "(\<forall>row\<in>set rows. hd row \<noteq> ?pk) \<or> (\<exists>j<i. publicKey (snd (?cs ! j)) = ?pk)"
      then have "(\<forall>row\<in>set rows. hd row \<noteq> ?pk) \<or> \<not> ?first" by blast
      from idle [OF this]
      show "latestHandshakeAt (?vs ! i) = Null" "endpoint (?vs ! i) = Null"
        "transferRx (?vs ! i) = Null" "transferTx (?vs ! i) = Null"
        "persistentKeepalive (?vs ! i) = Null"
        by (simp_all only: toView_live_null)
    next
      fix row
      assume fi: ?first and f: "find (\<lambda>row. hd row = ?pk) (rev rows) = Some row"
      note eq = hit [OF fi f]
      show "latestHandshakeAt (?vs ! i) =
                (if column row 4 = Val ''0'' then Null
                 else Val (NewDate (Number (Val (field_text (column row 4) @ ''000'')))))"
        "endpoint (?vs ! i) = (if column row 2 = Val ''(none)'' then Null else column row 2)"
        "transferRx (?vs ! i) = Val (Number (column row 5))"
        "transferTx (?vs ! i) = Val (Number (column row 6))"
        "persistentKeepalive (?vs ! i) = column row 7"
        by (simp_all only: eq setStatus_all_fields)
    qed
  qed
  from per have every: "\<forall>i<length ?cs.
        (?vs ! i)\<lparr>persistentKeepalive := Null, latestHandshakeAt := Null, transferRx := Null,
                 transferTx := Null, endpoint := Null\<rparr> =
          toView (fst (?cs ! i)) (snd (?cs ! i)) \<and>
        ((\<forall>row\<in>set rows. hd row \<noteq> publicKey (snd (?cs ! i))) \<or>
         (\<exists>j<i. publicKey (snd (?cs ! j)) = publicKey (snd (?cs ! i))) \<longrightarrow>
           latestHandshakeAt (?vs ! i) = Null \<and> endpoint (?vs ! i) = Null \<and>
           transferRx (?vs ! i) = Null \<and> transferTx (?vs ! i) = Null \<and>
           persistentKeepalive (?vs ! i) = Null) \<and>
        ((\<forall>j<i. publicKey (snd (?cs ! j)) \<noteq> publicKey (snd (?cs ! i))) \<longrightarrow>
           (\<forall>row. find (\<lambda>row. hd row = publicKey (snd (?cs ! i))) (rev rows) = Some row \<longrightarrow>
              latestHandshakeAt (?vs ! i) =
                (if column row 4 = Val ''0'' then Null
                 else Val (NewDate (Number (Val (field_text (column row 4) @ ''000''))))) \<and>
              endpoint (?vs ! i) = (if column row 2 = Val ''(none)'' then Null else column row 2) \<and>
              transferRx (?vs ! i) = Val (Number (column row 5)) \<and>
              transferTx (?vs ! i) = Val (Number (column row 6)) \<and>
              persistentKeepalive (?vs ! i) = column row 7))"
    by (intro allI impI) (rule per)
  show ?thesis
    by (rule exI [of _ ?vs]) (intro conjI res len every)
qed

text \<open>
  Witness: peers A, B, C and the records \<open>rows0\<close>. A's record has handshake \<open>0\<close> and
  endpoint \<open>(none)\<close>, B has no record, one record carries an unknown key, and C's
  record has handshake \<open>1700000000\<close> and an endpoint.
\<close>

theorem getClients_status_merge_witness:
  "configPromise (registry [(''a'', alice), (''b'', bob), (''c'', carol)]) =
     Some (Inr (snapshot [(''a'', alice), (''b'', bob), (''c'', carol)])) \<and>
   execResult envDump1 (length (execLog (registry [(''a'', alice), (''b'', bob), (''c'', carol)])))
     ''wg show wg0 dump'' = Inr dump1 \<and>
   dump1 = tsv [''PRIVATE'', ''PUBLIC'', ''51820'', ''off''] @ joinLines (map tsv rows0) @ [nl] \<and>
   list_all (\<lambda>row. row \<noteq> [] \<and> list_all (\<lambda>col. tab \<notin> set col \<and> nl \<notin> set col) row) rows0 \<and>
   (\<exists>vs. fst (getClients envDump1 (registry [(''a'', alice), (''b'', bob), (''c'', carol)])) = Inr vs \<and>
      length vs = 3 \<and>
      v_id (vs ! 0) = ''a'' \<and> latestHandshakeAt (vs ! 0) = Null \<and> endpoint (vs ! 0) = Null \<and>
      transferRx (vs ! 0) = Val (Number (Val ''0'')) \<and>
      transferTx (vs ! 0) = Val (Number (Val ''0'')) \<and>
      persistentKeepalive (vs ! 0) = Val ''off'' \<and>
      v_id (vs ! 1) = ''b'' \<and> latestHandshakeAt (vs ! 1) = Null \<and> endpoint (vs ! 1) = Null \<and>
      transferRx (vs ! 1) = Null \<and> transferTx (vs ! 1) = Null \<and>
      persistentKeepalive (vs ! 1) = Null \<and>
      v_id (vs ! 2) = ''c'' \<and>
      latestHandshakeAt (vs ! 2) = Val (NewDate (Number (Val ''1700000000000''))) \<and>
      endpoint (vs ! 2) = Val ''192.0.2.7:4500'' \<and>
      transferRx (vs ! 2) = Val (Number (Val ''10'')) \<and>
      transferTx (vs ! 2) = Val (Number (Val ''20'')) \<and>
      persistentKeepalive (vs ! 2) = Val ''25'')"
proof -
  let ?w = "registry [(''a'', alice), (''b'', bob), (''c'', carol)]"
  let ?cfg = "snapshot [(''a'', alice), (''b'', bob), (''c'', carol)]"
  let ?hdr = "tsv [''PRIVATE'', ''PUBLIC'', ''51820'', ''off'']"
  let ?rowA = "[''PUBLIC-A'', ''SHARED-A'', ''(none)'', ''10.8.0.2/32'', ''0'', ''0'', ''0'', ''off'']"
  let ?rowC = "[''PUBLIC-C'', ''SHARED-C'', ''192.0.2.7:4500'', ''10.8.0.4/32'', ''1700000000'',
                ''10'', ''20'', ''25'']"
  have cp: "configPromise ?w = Some (Inr ?cfg)"
    by (simp add: registry_def snapshot_def)
  have ex: "execResult envDump1 (length (execLog ?w)) ''wg show wg0 dump'' = Inr dump1"
    by (simp add: envDump1_def)
  have dump: "dump1 = ?hdr @ joinLines (map tsv rows0) @ [nl]"
    by (simp add: dump1_def)
  have hdr: "?hdr \<noteq> [] \<and> \<not> isSpace (hd ?hdr) \<and> nl \<notin> set ?hdr"
    by code_simp
  have rows_l: "list_all (\<lambda>row. row \<noteq> [] \<and> list_all (\<lambda>col. tab \<notin> set col \<and> nl \<notin> set col) row)
      rows0"
    by code_simp
  then have rows: "\<forall>row\<in>set rows0. row \<noteq> [] \<and> (\<forall>col\<in>set row. tab \<notin> set col \<and> nl \<notin> set col)"
    by (simp add: list_all_iff)
  have "\<not> isSpace (last (?hdr @ joinLines (map tsv rows0)))"
    by code_simp
  then have tail: "\<not> isSpace (last (?hdr @ joinLines (map tsv rows0))) \<and> (\<forall>ch\<in>set [nl]. isSpace ch)"
    by (simp add: isSpace_def)
  have cl: "clients ?cfg = [(''a'', alice), (''b'', bob), (''c'', carol)]"
    by (simp add: snapshot_def)
  have keys: "publicKey alice = ''PUBLIC-A''" "publicKey bob = ''PUBLIC-B''"
    "publicKey carol = ''PUBLIC-C''"
    by (simp_all add: alice_def bob_def carol_def)
  have findA: "find (\<lambda>row. hd row = ''PUBLIC-A'') (rev rows0) = Some ?rowA"
    and findC: "find (\<lambda>row. hd row = ''PUBLIC-C'') (rev rows0) = Some ?rowC"
    by code_simp+
  have "list_all (\<lambda>row. hd row \<noteq> ''PUBLIC-B'') rows0"
    by code_simp
  then have noB: "\<forall>row\<in>set rows0. hd row \<noteq> ''PUBLIC-B''"
    by (simp add: list_all_iff)
  from getClients_status_merge [OF cp ex dump hdr rows tail]
  obtain vs where res: "fst (getClients envDump1 ?w) = Inr vs"
    and len: "length vs = length (clients ?cfg)"
    and every: "\<forall>i<length (clients ?cfg).
        (vs ! i)\<lparr>persistentKeepalive := Null, latestHandshakeAt := Null, transferRx := Null,
                 transferTx := Null, endpoint := Null\<rparr> =
          toView (fst (clients ?cfg ! i)) (snd (clients ?cfg ! i)) \<and>
        ((\<forall>row\<in>set rows0. hd row \<noteq> publicKey (snd (clients ?cfg ! i))) \<or>
         (\<exists>j<i. publicKey (snd (clients ?cfg ! j)) = publicKey (snd (clients ?cfg ! i))) \<longrightarrow>
           latestHandshakeAt (vs ! i) = Null \<and> endpoint (vs ! i) = Null \<and>
           transferRx (vs ! i) = Null \<and> transferTx (vs ! i) = Null \<and>
           persistentKeepalive (vs ! i) = Null) \<and>
        ((\<forall>j<i. publicKey (snd (clients ?cfg ! j)) \<noteq> publicKey (snd (clients ?cfg ! i))) \<longrightarrow>
           (\<forall>row. find (\<lambda>row. hd row = publicKey (snd (clients ?cfg ! i))) (rev rows0) = Some row \<longrightarrow>
              latestHandshakeAt (vs ! i) =
                (if column row 4 = Val ''0'' then Null
                 else Val (NewDate (Number (Val (field_text (column row 4) @ ''000''))))) \<and>
              endpoint (vs ! i) = (if column row 2 = Val ''(none)'' then Null else column row 2) \<and>
              transferRx (vs ! i) = Val (Number (column row 5)) \<and>
              transferTx (vs ! i) = Val (Number (column row 6)) \<and>
              persistentKeepalive (vs ! i) = column row 7))"
    by (elim exE conjE) (rule that, assumption+)
  have ids: "v_id (vs ! i) = fst (clients ?cfg ! i)" if "i < 3" for i
  proof -
    from every that have "(vs ! i)\<lparr>persistentKeepalive := Null, latestHandshakeAt := Null,
        transferRx := Null, transferTx := Null, endpoint := Null\<rparr> =
          toView (fst (clients ?cfg ! i)) (snd (clients ?cfg ! i))"
      by (simp add: cl)
    then have "v_id ((vs ! i)\<lparr>persistentKeepalive := Null, latestHandshakeAt := Null,
        transferRx := Null, transferTx := Null, endpoint := Null\<rparr>) = fst (clients ?cfg ! i)"
      by (simp only: toView_live_null)
    then show ?thesis by simp
  qed
  from every [rule_format, of 0] findA
  have a: "latestHandshakeAt (vs ! 0) = Null" "endpoint (vs ! 0) = Null"
    "transferRx (vs ! 0) = Val (Number (Val ''0''))"
    "transferTx (vs ! 0) = Val (Number (Val ''0''))"
    "persistentKeepalive (vs ! 0) = Val ''off''"
    by (simp_all add: cl keys column_def)
  from every [rule_format, of 1] noB
  have b: "latestHandshakeAt (vs ! 1) = Null" "endpoint (vs ! 1) = Null"
    "transferRx (vs ! 1) = Null" "transferTx (vs ! 1) = Null" "persistentKeepalive (vs ! 1) = Null"
    by (simp_all add: cl keys)
  have firstC: "\<forall>j<2. publicKey (snd (clients ?cfg ! j)) \<noteq> publicKey (snd (clients ?cfg ! 2))"
    by (simp add: cl keys less_Suc_eq numeral_2_eq_2)
  from every [rule_format, of 2] have "\<forall>row. find (\<lambda>row. hd row = ''PUBLIC-C'') (rev rows0) = Some row \<longrightarrow>
              latestHandshakeAt (vs ! 2) =
                (if column row 4 = Val ''0'' then Null
                 else Val (NewDate (Number (Val (field_text (column row 4) @ ''000''))))) \<and>
              endpoint (vs ! 2) = (if column row 2 = Val ''(none)'' then Null else column row 2) \<and>
              transferRx (vs ! 2) = Val (Number (column row 5)) \<and>
              transferTx (vs ! 2) = Val (Number (column row 6)) \<and>
              persistentKeepalive (vs ! 2) = column row 7"
    using firstC by (simp add: cl keys)
  with findC
  have c: "latestHandshakeAt (vs ! 2) = Val (NewDate (Number (Val ''1700000000000'')))"
    "endpoint (vs ! 2) = Val ''192.0.2.7:4500''"
    "transferRx (vs ! 2) = Val (Number (Val ''10''))"
    "transferTx (vs ! 2) = Val (Number (Val ''20''))"
    "persistentKeepalive (vs ! 2) = Val ''25''"
    by (simp_all add: column_def field_text_def)
  have "length vs = 3"
    using len by (simp add: cl)
  moreover have "v_id (vs ! 0) = ''a''" "v_id (vs ! 1) = ''b''" "v_id (vs ! 2) = ''c''"
    using ids [of 0] ids [of 1] ids [of 2] by (simp_all add: cl)
  ultimately show ?thesis
    using cp ex dump rows_l res a b c by blast
qed

end
